theory Spec2Isabelle
  imports Main
begin

section \<open>JavaScript values\<close>

text \<open>
  Events, rule conditions and raw Windows records are JSON data. A value is one of
  the JSON shapes, \<open>undefined\<close>, or a built-in: a function or object of the
  runtime, which no JSON document holds but which a property read can return (an
  object inherits \<open>constructor\<close>, \<open>toString\<close>, ... from its prototype). A
  built-in is given by a number that identifies it and by the text \<open>String\<close>
  makes of it; the conversion is taken to succeed on every built-in. An object is the
  list of its own properties in insertion order, the first binding of a key being the
  live one. Strings are sequences of code units below 256.

  Numbers are integers. The model covers the numbers of the program that are
  integers of magnitude up to \<open>2^53\<close>, which a double holds exactly. A fraction,
  NaN or an infinity held in a document has no counterpart here, and an integer
  beyond \<open>2^53\<close>, which the program would round to a double, is kept exact.
\<close>

datatype jsval =
    JUndefined
  | JNull
  | JBool bool
  | JNum int
  | JStr string
  | JArr "jsval list"
  | JObj "(string \<times> jsval) list"
  | JBuiltin nat string

datatype js_error = TypeError | RangeError | SyntaxError

text \<open>ToBoolean: what \<open>if (v)\<close>, \<open>!v\<close>, \<open>a || b\<close> and \<open>a && b\<close> test.\<close>

fun truthy :: "jsval \<Rightarrow> bool" where
  "truthy JUndefined = False"
| "truthy JNull = False"
| "truthy (JBool b) = b"
| "truthy (JNum n) = (n \<noteq> 0)"
| "truthy (JStr s) = (s \<noteq> [])"
| "truthy (JArr xs) = True"
| "truthy (JObj kvs) = True"
| "truthy (JBuiltin n s) = True"

definition js_or :: "jsval \<Rightarrow> jsval \<Rightarrow> jsval" where
  "js_or a b = (if truthy a then a else b)"

fun is_array :: "jsval \<Rightarrow> bool" where
  "is_array (JArr xs) = True"
| "is_array v = False"

fun array_items :: "jsval \<Rightarrow> jsval list" where
  "array_items (JArr xs) = xs"
| "array_items v = []"

text \<open>Decimal numerals, for \<open>String(n)\<close> and for array index keys.\<close>

definition digit_char :: "nat \<Rightarrow> char" where
  "digit_char d = ''0123456789'' ! d"

function show_nat :: "nat \<Rightarrow> string" where
  "show_nat n = (if n < 10 then [digit_char n] else show_nat (n div 10) @ [digit_char (n mod 10)])"
  by pat_completeness auto
termination
  by (relation "measure id") auto

declare show_nat.simps [simp del]

definition show_int :: "int \<Rightarrow> string" where
  "show_int i = (if i < 0 then CHR ''-'' # show_nat (nat (- i)) else show_nat (nat i))"

definition is_digit :: "char \<Rightarrow> bool" where
  "is_digit c = (48 \<le> (of_char c :: nat) \<and> (of_char c :: nat) \<le> 57)"

definition digit_val :: "char \<Rightarrow> nat" where
  "digit_val c = of_char c - 48"

fun digits_val :: "nat \<Rightarrow> string \<Rightarrow> nat" where
  "digits_val acc [] = acc"
| "digits_val acc (c # cs) = digits_val (acc * 10 + digit_val c) cs"

text \<open>An array index key is the canonical numeral of the index: \<open>"7"\<close>, not \<open>"07"\<close>.\<close>

definition array_index :: "string \<Rightarrow> nat option" where
  "array_index k =
     (if k \<noteq> [] \<and> list_all is_digit k \<and> show_nat (digits_val 0 k) = k
      then Some (digits_val 0 k) else None)"

text \<open>
  The properties a value has of its own: the bindings of an object, the indices and
  the length of an array or of a string.
\<close>

fun own_property :: "jsval \<Rightarrow> string \<Rightarrow> jsval option" where
  "own_property (JObj kvs) k = map_of kvs k"
| "own_property (JArr xs) k =
     (if k = ''length'' then Some (JNum (int (length xs)))
      else case array_index k of
             Some i \<Rightarrow> (if i < length xs then Some (xs ! i) else None)
           | None \<Rightarrow> None)"
| "own_property (JStr s) k =
     (if k = ''length'' then Some (JNum (int (length s)))
      else case array_index k of
             Some i \<Rightarrow> (if i < length s then Some (JStr [s ! i]) else None)
           | None \<Rightarrow> None)"
| "own_property v k = None"

text \<open>
  Property read \<open>v.k\<close> for a key written in the program, on a value of a JSON
  document that is neither \<open>null\<close> nor \<open>undefined\<close> (on those the read throws;
  every caller below guards it). Of the keys the program writes, the built-in
  prototypes of objects, arrays, strings, numbers and booleans hold only \<open>match\<close>
  (of strings, see \<open>match_of\<close>) and the methods the program calls, so for these
  keys the read is the own property. Reads with a computed key are \<open>js_lookup\<close>.
\<close>

fun js_get :: "jsval \<Rightarrow> string \<Rightarrow> jsval" where
  "js_get (JObj kvs) k = (case map_of kvs k of Some v \<Rightarrow> v | None \<Rightarrow> JUndefined)"
| "js_get (JArr xs) k =
     (if k = ''length'' then JNum (int (length xs))
      else case array_index k of
             Some i \<Rightarrow> (if i < length xs then xs ! i else JUndefined)
           | None \<Rightarrow> JUndefined)"
| "js_get (JStr s) k =
     (if k = ''length'' then JNum (int (length s))
      else case array_index k of
             Some i \<Rightarrow> (if i < length s then JStr [s ! i] else JUndefined)
           | None \<Rightarrow> JUndefined)"
| "js_get v k = JUndefined"

text \<open>Optional chaining \<open>v?.k\<close>.\<close>

definition js_get_opt :: "jsval \<Rightarrow> string \<Rightarrow> jsval" where
  "js_get_opt v k = (if v = JNull \<or> v = JUndefined then JUndefined else js_get v k)"

text \<open>Property write \<open>o[k] = v\<close> on an object: in place if the key exists, else appended.\<close>

fun assoc_set :: "(string \<times> jsval) list \<Rightarrow> string \<Rightarrow> jsval \<Rightarrow> (string \<times> jsval) list" where
  "assoc_set [] k v = [(k, v)]"
| "assoc_set ((k', v') # kvs) k v =
     (if k' = k then (k, v) # kvs else (k', v') # assoc_set kvs k v)"

fun js_set :: "jsval \<Rightarrow> string \<Rightarrow> jsval \<Rightarrow> jsval" where
  "js_set (JObj kvs) k v = JObj (assoc_set kvs k v)"
| "js_set w k v = w"

text \<open>
  ToString: \<open>String(v)\<close>, template-literal interpolation and the conversion of a
  computed property key. On an object the conversion calls the object's \<open>toString\<close>;
  an object decoded from JSON with a key \<open>toString\<close> of its own has a value there
  that cannot be called, and the conversion throws a TypeError. An array converts
  its elements in turn. \<open>printable v\<close> says that the conversion of \<open>v\<close> does not
  throw; \<open>js_to_string v\<close> is then its result. A number is printed in full, as
  the program prints an integer below \<open>10^21\<close> that a double holds exactly.
\<close>

fun printable :: "jsval \<Rightarrow> bool" where
  "printable (JObj kvs) = (map_of kvs ''toString'' = None)"
| "printable (JArr xs) = list_all printable xs"
| "printable v = True"

fun join_with :: "string \<Rightarrow> string list \<Rightarrow> string" where
  "join_with sep [] = []"
| "join_with sep [s] = s"
| "join_with sep (s # t # ss) = s @ sep @ join_with sep (t # ss)"

fun js_to_string :: "jsval \<Rightarrow> string" where
  "js_to_string JUndefined = ''undefined''"
| "js_to_string JNull = ''null''"
| "js_to_string (JBool b) = (if b then ''true'' else ''false'')"
| "js_to_string (JNum n) = show_int n"
| "js_to_string (JStr s) = s"
| "js_to_string (JArr xs) =
     join_with '','' (map (\<lambda>x. if x = JNull \<or> x = JUndefined then [] else js_to_string x) xs)"
| "js_to_string (JObj kvs) = ''[object Object]''"
| "js_to_string (JBuiltin n s) = s"

text \<open>
  \<open>toLowerCase\<close> on code units below 256: A-Z and the Latin-1 capitals move up by
  32, which sets the bit of weight 32 (it is clear in all of them).
\<close>

fun add_32 :: "char \<Rightarrow> char" where
  "add_32 (Char b0 b1 b2 b3 b4 b5 b6 b7) = Char b0 b1 b2 b3 b4 True b6 b7"

definition lower_char :: "char \<Rightarrow> char" where
  "lower_char c =
     (let n = (of_char c :: nat) in
      if (65 \<le> n \<and> n \<le> 90) \<or> (192 \<le> n \<and> n \<le> 222 \<and> n \<noteq> 215)
      then add_32 c else c)"

definition toLowerCase :: "string \<Rightarrow> string" where
  "toLowerCase s = map lower_char s"

fun starts_with :: "string \<Rightarrow> string \<Rightarrow> bool" where
  "starts_with s [] = True"
| "starts_with [] (p # ps) = False"
| "starts_with (x # xs) (p # ps) = (x = p \<and> starts_with xs ps)"

text \<open>The backslash.\<close>

abbreviation BSL :: char where
  "BSL \<equiv> CHR 0x5C"

text \<open>\<open>s.includes(sub)\<close> of the source.\<close>

fun str_includes :: "string \<Rightarrow> string \<Rightarrow> bool" where
  "str_includes [] sub = (sub = [])"
| "str_includes (x # xs) sub = (starts_with (x # xs) sub \<or> str_includes xs sub)"

text \<open>\<open>s.split(c)\<close> for a one-character separator.\<close>

fun split_on :: "char \<Rightarrow> string \<Rightarrow> string list" where
  "split_on c [] = [[]]"
| "split_on c (x # xs) =
     (if x = c then [] # split_on c xs
      else case split_on c xs of
             p # ps \<Rightarrow> (x # p) # ps
           | [] \<Rightarrow> [[x]])"

text \<open>
  Strict equality \<open>a === b\<close> between a value read from an event and a value read from
  a rule: primitives compare by value; two objects or arrays from different JSON
  documents are never the same reference, and a built-in is no value of a JSON
  document.
\<close>

fun strict_eq :: "jsval \<Rightarrow> jsval \<Rightarrow> bool" where
  "strict_eq (JArr xs) b = False"
| "strict_eq (JObj kvs) b = False"
| "strict_eq (JBuiltin n s) b = False"
| "strict_eq a b = (a = b)"

section \<open>Built-ins of the runtime\<close>

text \<open>
  The regular-expression engine, the date parser, the number parser and the
  prototype objects of the runtime are parameters of the engine model:
  \<^item> \<open>RegExp_i p\<close> is \<open>new RegExp(p, 'i')\<close>: \<open>None\<close> when the constructor throws on
    the pattern, else the \<open>test\<close> function of the compiled expression;
  \<^item> \<open>Date_getTime v\<close> is \<open>new Date(v).getTime()\<close> in milliseconds, \<open>None\<close> for NaN;
  \<^item> \<open>StringToNumber s\<close> is the numeric value of a string, \<open>None\<close> for NaN;
  \<^item> \<open>Inherited v k\<close> is the read \<open>v[k]\<close> when \<open>k\<close> is no own property of
    \<open>v\<close>: the member found along the prototype chain of \<open>v\<close>, \<open>undefined\<close> when
    there is none, the exception when the member is an accessor that throws. Every
    read on a built-in is of this kind.
\<close>

record builtins =
  RegExp_i :: "string \<Rightarrow> (string \<Rightarrow> bool) option"
  Date_getTime :: "jsval \<Rightarrow> int option"
  StringToNumber :: "string \<Rightarrow> int option"
  Inherited :: "jsval \<Rightarrow> string \<Rightarrow> js_error + jsval"

text \<open>
  The read \<open>v[k]\<close> with a computed key, on a value that is neither \<open>null\<close> nor
  \<open>undefined\<close>.
\<close>

definition js_lookup :: "builtins \<Rightarrow> jsval \<Rightarrow> string \<Rightarrow> js_error + jsval" where
  "js_lookup B v k = (case own_property v k of Some x \<Rightarrow> Inr x | None \<Rightarrow> Inherited B v k)"

text \<open>
  ToNumber; \<open>None\<close> is NaN. The conversion of an object or array goes through its
  string form and throws where ToString throws: the callers test \<open>printable\<close>
  first. A built-in is never converted by this program.
\<close>

fun to_number :: "builtins \<Rightarrow> jsval \<Rightarrow> int option" where
  "to_number B JUndefined = None"
| "to_number B JNull = Some 0"
| "to_number B (JBool b) = Some (if b then 1 else 0)"
| "to_number B (JNum n) = Some n"
| "to_number B (JStr s) = StringToNumber B s"
| "to_number B (JArr xs) =
     (if printable (JArr xs) then StringToNumber B (js_to_string (JArr xs)) else None)"
| "to_number B (JObj kvs) = None"
| "to_number B (JBuiltin n s) = StringToNumber B s"

text \<open>Comparisons with NaN are false.\<close>

definition num_ge :: "int option \<Rightarrow> int option \<Rightarrow> bool" where
  "num_ge a b = (case (a, b) of (Some x, Some y) \<Rightarrow> x \<ge> y | _ \<Rightarrow> False)"

definition num_gt :: "int option \<Rightarrow> int option \<Rightarrow> bool" where
  "num_gt a b = (case (a, b) of (Some x, Some y) \<Rightarrow> x > y | _ \<Rightarrow> False)"

definition num_lt :: "int option \<Rightarrow> int option \<Rightarrow> bool" where
  "num_lt a b = (case (a, b) of (Some x, Some y) \<Rightarrow> x < y | _ \<Rightarrow> False)"

definition num_sub :: "int option \<Rightarrow> int option \<Rightarrow> int option" where
  "num_sub a b = (case (a, b) of (Some x, Some y) \<Rightarrow> Some (x - y) | _ \<Rightarrow> None)"

definition num_mul :: "int option \<Rightarrow> int option \<Rightarrow> int option" where
  "num_mul a b = (case (a, b) of (Some x, Some y) \<Rightarrow> Some (x * y) | _ \<Rightarrow> None)"

section \<open>Condition matcher (detectionEngine.js)\<close>

text \<open>
  \<open>getFieldValue(obj, fieldPath)\<close>: a falsy path or object gives \<open>undefined\<close>; the
  path is split at the dots and followed, giving \<open>undefined\<close> as soon as the value
  at hand is \<open>null\<close> or \<open>undefined\<close>. A truthy path that is not a string has no
  \<open>split\<close> method: the call throws a TypeError.
\<close>

fun walk_path :: "builtins \<Rightarrow> string list \<Rightarrow> jsval \<Rightarrow> js_error + jsval" where
  "walk_path B [] v = Inr v"
| "walk_path B (part # parts) v =
     (if v = JNull \<or> v = JUndefined then Inr JUndefined
      else case js_lookup B v part of
             Inl err \<Rightarrow> Inl err
           | Inr v' \<Rightarrow> walk_path B parts v')"

definition getFieldValue :: "builtins \<Rightarrow> jsval \<Rightarrow> jsval \<Rightarrow> js_error + jsval" where
  "getFieldValue B obj fieldPath =
     (if \<not> truthy fieldPath \<or> \<not> truthy obj then Inr JUndefined
      else case fieldPath of
             JStr p \<Rightarrow> walk_path B (split_on CHR ''.'' p) obj
           | _ \<Rightarrow> Inl TypeError)"

text \<open>
  A dotted path is absent from a value when, following it part by part through own
  properties, one comes to \<open>null\<close> or \<open>undefined\<close>, or to a value that has no own
  property of the next part and inherits none, before the path ends.
\<close>

fun field_absent :: "builtins \<Rightarrow> string list \<Rightarrow> jsval \<Rightarrow> bool" where
  "field_absent B [] v = False"
| "field_absent B (part # parts) v =
     (v = JNull \<or> v = JUndefined
      \<or> (case own_property v part of
            None \<Rightarrow> Inherited B v part = Inr JUndefined
          | Some v' \<Rightarrow> field_absent B parts v'))"

text \<open>
  A dotted path leads to \<open>v'\<close> in a value when each part in turn names an own
  property of the value reached so far, and \<open>v'\<close> is the last one.
\<close>

fun field_at :: "string list \<Rightarrow> jsval \<Rightarrow> jsval option" where
  "field_at [] v = Some v"
| "field_at (part # parts) v =
     (case own_property v part of
        None \<Rightarrow> None
      | Some v' \<Rightarrow> field_at parts v')"

text \<open>
  The four field-level checks of \<open>matchesCondition\<close>, each as "this check fails"
  (the function returns \<open>false\<close>). The \<open>contains\<close> and \<open>contains_any\<close> checks
  convert their operands with \<open>String\<close> outside any \<open>try\<close>, in this order: the
  field value, then the operand of the rule (for \<open>contains_any\<close>, the elements in
  turn up to the first that is found). The \<open>matches\<close> check runs inside a \<open>try\<close>
  whose \<open>catch\<close> returns \<open>false\<close>.
\<close>

definition equals_fails :: "jsval \<Rightarrow> jsval \<Rightarrow> bool" where
  "equals_fails condition fieldValue =
     (js_get condition ''equals'' \<noteq> JUndefined
      \<and> \<not> strict_eq fieldValue (js_get condition ''equals''))"

definition contains_fails :: "jsval \<Rightarrow> jsval \<Rightarrow> js_error + bool" where
  "contains_fails condition fieldValue =
     (if js_get condition ''contains'' = JUndefined then Inr False
      else if \<not> truthy fieldValue then Inr True
      else if \<not> printable fieldValue \<or> \<not> printable (js_get condition ''contains'')
        then Inl TypeError
      else Inr (\<not> str_includes (toLowerCase (js_to_string fieldValue))
                     (toLowerCase (js_to_string (js_get condition ''contains'')))))"

fun includes_any :: "string \<Rightarrow> jsval list \<Rightarrow> js_error + bool" where
  "includes_any val [] = Inr False"
| "includes_any val (c # cs) =
     (if \<not> printable c then Inl TypeError
      else if str_includes val (toLowerCase (js_to_string c)) then Inr True
      else includes_any val cs)"

definition contains_any_fails :: "jsval \<Rightarrow> jsval \<Rightarrow> js_error + bool" where
  "contains_any_fails condition fieldValue =
     (if \<not> is_array (js_get condition ''contains_any'') then Inr False
      else if \<not> truthy fieldValue then Inr True
      else if \<not> printable fieldValue then Inl TypeError
      else case includes_any (toLowerCase (js_to_string fieldValue))
                  (array_items (js_get condition ''contains_any'')) of
             Inl err \<Rightarrow> Inl err
           | Inr found \<Rightarrow> Inr (\<not> found))"

definition matches_fails :: "builtins \<Rightarrow> jsval \<Rightarrow> jsval \<Rightarrow> bool" where
  "matches_fails B condition fieldValue =
     (js_get condition ''matches'' \<noteq> JUndefined
      \<and> (\<not> printable (js_get condition ''matches'')
         \<or> (case RegExp_i B (js_to_string (js_get condition ''matches'')) of
               None \<Rightarrow> True
             | Some test \<Rightarrow>
                 \<not> truthy fieldValue \<or> \<not> printable fieldValue
                 \<or> \<not> test (js_to_string fieldValue))))"

lemma size_map_of:
  "map_of kvs k = Some v \<Longrightarrow> size v < size (JObj kvs)"
  by (induction kvs) (auto split: if_splits)

lemma size_js_get_array:
  "js_get c k = JArr cs \<Longrightarrow> k \<noteq> ''length'' \<Longrightarrow> array_index k = None
   \<Longrightarrow> size_list size cs < size c"
  by (cases c) (auto split: option.splits dest: size_map_of)

lemma size_js_get_truthy:
  "truthy (js_get c k) \<Longrightarrow> k \<noteq> ''length'' \<Longrightarrow> array_index k = None
   \<Longrightarrow> size (js_get c k) < size c"
  by (cases c) (auto split: option.splits dest: size_map_of)

lemma array_index_names [simp]:
  "array_index ''any'' = None" "array_index ''all'' = None"
  "array_index ''not'' = None" "array_index ''additional'' = None"
  by (simp_all add: array_index_def is_digit_def)

function matchesCondition :: "builtins \<Rightarrow> jsval \<Rightarrow> jsval \<Rightarrow> js_error + bool"
  and some_match :: "builtins \<Rightarrow> jsval \<Rightarrow> jsval list \<Rightarrow> js_error + bool"
  and every_match :: "builtins \<Rightarrow> jsval \<Rightarrow> jsval list \<Rightarrow> js_error + bool"
where
  "matchesCondition B event condition =
     (if \<not> truthy condition then Inr False
      else if is_array (js_get condition ''any'')
        then some_match B event (array_items (js_get condition ''any''))
      else if is_array (js_get condition ''all'')
        then every_match B event (array_items (js_get condition ''all''))
      else (case getFieldValue B event (js_get condition ''field'') of
        Inl err \<Rightarrow> Inl err
      | Inr fieldValue \<Rightarrow>
          if equals_fails condition fieldValue then Inr False
          else (case contains_fails condition fieldValue of
            Inl err \<Rightarrow> Inl err
          | Inr True \<Rightarrow> Inr False
          | Inr False \<Rightarrow>
             (case contains_any_fails condition fieldValue of
                Inl err \<Rightarrow> Inl err
              | Inr True \<Rightarrow> Inr False
              | Inr False \<Rightarrow>
                  if matches_fails B condition fieldValue then Inr False
                  else (case (if truthy (js_get condition ''not'')
                              then matchesCondition B event (js_get condition ''not'')
                              else Inr False) of
                    Inl err \<Rightarrow> Inl err
                  | Inr True \<Rightarrow> Inr False
                  | Inr False \<Rightarrow>
                      (if truthy (js_get condition ''additional'')
                       then matchesCondition B event (js_get condition ''additional'')
                       else Inr True))))))"
| "some_match B event [] = Inr False"
| "some_match B event (c # cs) =
     (case matchesCondition B event c of
        Inl err \<Rightarrow> Inl err
      | Inr True \<Rightarrow> Inr True
      | Inr False \<Rightarrow> some_match B event cs)"
| "every_match B event [] = Inr True"
| "every_match B event (c # cs) =
     (case matchesCondition B event c of
        Inl err \<Rightarrow> Inl err
      | Inr False \<Rightarrow> Inr False
      | Inr True \<Rightarrow> every_match B event cs)"
  by pat_completeness auto
termination
proof (relation "measure (\<lambda>x. case x of
          Inl (B, e, c) \<Rightarrow> size c
        | Inr (Inl (B, e, cs)) \<Rightarrow> size_list size cs
        | Inr (Inr (B, e, cs)) \<Rightarrow> size_list size cs)", goal_cases)
  case 1
  show ?case by simp
next
  case (2 B event condition)
  then show ?case
    by (cases "js_get condition ''any''") (auto dest: size_js_get_array)
next
  case (3 B event condition)
  then show ?case
    by (cases "js_get condition ''all''") (auto dest: size_js_get_array)
next
  case (4 B event condition)
  then show ?case by (auto intro: size_js_get_truthy)
next
  case (5 B event condition)
  then show ?case by (auto intro: size_js_get_truthy)
qed auto

declare matchesCondition.simps [simp del]

section \<open>Rule engine (detectionEngine.js)\<close>

text \<open>
  A rule is a row of the rules table with its \<open>conditions\<close> column decoded; its
  \<open>description\<close> column holds a text or NULL. An alert is the object
  \<open>createAlert\<close> builds. The engine state is the module-level map
  \<open>thresholdState\<close> together with the two effects of \<open>createAlert\<close> on the alert
  sink: the inserted alerts, in order, and the per-rule match counters. The sink is the
  database layer; its two calls are taken to succeed.
\<close>

record rule =
  rule_id :: string
  rule_name :: string
  description :: "string option"
  rule_severity :: string
  rule_type :: string
  conditions :: jsval

text \<open>The value of \<open>rule.description\<close>: the text, or \<open>null\<close>.\<close>

definition rule_description :: "rule \<Rightarrow> jsval" where
  "rule_description rule = (case description rule of None \<Rightarrow> JNull | Some text \<Rightarrow> JStr text)"

record alert =
  alert_id :: string
  alert_event_id :: jsval
  alert_rule_id :: string
  alert_severity :: string
  alert_status :: string
  alert_title :: string
  alert_description :: string
  alert_endpoint_id :: jsval

record win_entry =
  entry_id :: jsval
  entry_timestamp :: jsval

record win_state =
  count :: int
  window_start :: int
  events :: "win_entry list"

record engine =
  thresholdState :: "string \<Rightarrow> win_state option"
  alerts_table :: "alert list"
  match_count :: "string \<Rightarrow> nat"

definition nullish :: "jsval \<Rightarrow> bool" where
  "nullish v = (v = JNull \<or> v = JUndefined)"

definition fresh_state :: "int \<Rightarrow> win_state" where
  "fresh_state now = \<lparr>count = 0, window_start = now, events = []\<rparr>"

text \<open>
  A handler returns the alert it created, \<open>null\<close> (\<open>None\<close>), or throws; the state
  comes back in every case, since a throw does not undo the writes made before it.
\<close>

type_synonym outcome = "(js_error + alert option) \<times> engine"

text \<open>
  \<open>createAlert(event, rule, details)\<close>; \<open>uuid\<close> is the value \<open>uuidv4()\<close> returns.
  Reading \<open>event.id\<close> throws on an event that is \<open>null\<close> or \<open>undefined\<close>, before
  anything is inserted.
\<close>

definition createAlert :: "string \<Rightarrow> jsval \<Rightarrow> rule \<Rightarrow> string \<Rightarrow> engine \<Rightarrow> outcome" where
  "createAlert uuid event rule details st =
     (if nullish event then (Inl TypeError, st)
      else
        let alert = \<lparr>alert_id = uuid,
                     alert_event_id = js_get event ''id'',
                     alert_rule_id = rule_id rule,
                     alert_severity = rule_severity rule,
                     alert_status = ''open'',
                     alert_title = rule_name rule,
                     alert_description =
                       js_to_string (rule_description rule) @ [CHR 0x0A, CHR 0x0A]
                         @ ''Details: '' @ details,
                     alert_endpoint_id = js_get event ''endpoint_id''\<rparr>
        in (Inr (Some alert),
            st\<lparr>alerts_table := alerts_table st @ [alert],
               match_count := (match_count st)(rule_id rule := Suc (match_count st (rule_id rule)))\<rparr>))"

definition processSignatureRule :: "builtins \<Rightarrow> string \<Rightarrow> jsval \<Rightarrow> rule \<Rightarrow> engine \<Rightarrow> outcome" where
  "processSignatureRule B uuid event rule st =
     (case matchesCondition B event (conditions rule) of
        Inl err \<Rightarrow> (Inl err, st)
      | Inr False \<Rightarrow> (Inr None, st)
      | Inr True \<Rightarrow> createAlert uuid event rule (''Signature match: '' @ rule_name rule) st)"

text \<open>
  The group of an event: \<open>group_by ? getFieldValue(event, group_by) : 'global'\<close>,
  taken together with the statement that follows it in both handlers, the
  interpolation of the group value into the state key, which throws on a value that
  has no string form.
\<close>

definition groupValue_of :: "builtins \<Rightarrow> jsval \<Rightarrow> jsval \<Rightarrow> js_error + jsval" where
  "groupValue_of B event group_by =
     (case (if truthy group_by then getFieldValue B event group_by
            else Inr (JStr ''global'')) of
        Inl err \<Rightarrow> Inl err
      | Inr groupValue \<Rightarrow> if printable groupValue then Inr groupValue else Inl TypeError)"

definition stateKey_of :: "rule \<Rightarrow> jsval \<Rightarrow> string" where
  "stateKey_of rule groupValue = rule_id rule @ '':'' @ js_to_string groupValue"

text \<open>The window entry \<open>{ id: event.id, timestamp: event.timestamp }\<close>.\<close>

definition entry_of :: "jsval \<Rightarrow> win_entry" where
  "entry_of event =
     \<lparr>entry_id = js_get event ''id'', entry_timestamp = js_get event ''timestamp''\<rparr>"

text \<open>\<open>(now - new Date(e.timestamp).getTime()) < windowMs\<close>.\<close>

definition in_window :: "builtins \<Rightarrow> int \<Rightarrow> int option \<Rightarrow> win_entry \<Rightarrow> bool" where
  "in_window B now windowMs e =
     num_lt (num_sub (Some now) (Date_getTime B (entry_timestamp e))) windowMs"

text \<open>
  \<open>processThresholdRule(event, rule)\<close>, with \<open>now\<close> the value of \<open>Date.now()\<close>. The
  window length is computed before the state is read, and the threshold is converted
  only at the comparison, after the state has been stored: either conversion throws
  on a value without a string form. The state object fetched from the map is the
  stored one: \<open>state.count++\<close> writes to the map at once, so when \<open>event.id\<close> then
  throws the incremented counter stays.
\<close>

definition processThresholdRule :: "builtins \<Rightarrow> int \<Rightarrow> string \<Rightarrow> jsval \<Rightarrow> rule \<Rightarrow> engine \<Rightarrow> outcome" where
  "processThresholdRule B now uuid event rule st =
     (case matchesCondition B event (conditions rule) of
        Inl err \<Rightarrow> (Inl err, st)
      | Inr False \<Rightarrow> (Inr None, st)
      | Inr True \<Rightarrow>
         (let threshold = js_get (conditions rule) ''threshold'';
              window_seconds = js_get (conditions rule) ''window_seconds'';
              group_by = js_get (conditions rule) ''group_by''
          in case groupValue_of B event group_by of
               Inl err \<Rightarrow> (Inl err, st)
             | Inr groupValue \<Rightarrow>
                if \<not> printable (js_or window_seconds (JNum 60)) then (Inl TypeError, st)
                else
                (let stateKey = stateKey_of rule groupValue;
                     windowMs = num_mul (to_number B (js_or window_seconds (JNum 60))) (Some 1000);
                     stored = (case thresholdState st stateKey of
                                 None \<Rightarrow> None
                               | Some s \<Rightarrow>
                                   if num_gt (Some (now - window_start s)) windowMs
                                   then None else Some s);
                     state = (case stored of None \<Rightarrow> fresh_state now | Some s \<Rightarrow> s)
                 in if nullish event
                    then (Inl TypeError,
                          case stored of
                            None \<Rightarrow> st
                          | Some s \<Rightarrow>
                              st\<lparr>thresholdState :=
                                   (thresholdState st)(stateKey \<mapsto> s\<lparr>count := count s + 1\<rparr>)\<rparr>)
                    else
                      (let pushed = events state @ [entry_of event];
                           kept = filter (in_window B now windowMs) pushed;
                           state' = state\<lparr>count := int (length kept), events := kept\<rparr>;
                           st' = st\<lparr>thresholdState := (thresholdState st)(stateKey \<mapsto> state')\<rparr>
                       in if \<not> printable (js_or threshold (JNum 5)) then (Inl TypeError, st')
                          else if num_ge (Some (count state')) (to_number B (js_or threshold (JNum 5)))
                          then createAlert uuid event rule
                                 (''Threshold exceeded: '' @ show_int (count state')
                                    @ '' events in '' @ js_to_string window_seconds
                                    @ ''s (group: '' @ js_to_string groupValue @ '')'')
                                 (st'\<lparr>thresholdState :=
                                       (thresholdState st')(stateKey \<mapsto> fresh_state now)\<rparr>)
                          else (Inr None, st')))))"





section \<open>The clean-up timer and event streams\<close>

text \<open>
  The module starts a timer (\<open>setInterval\<close>, every 60 seconds) whose callback
  deletes every bucket of \<open>thresholdState\<close> whose window opened more than ten
  minutes before the callback's clock reading \<open>now\<close>.
\<close>

definition cleanup :: "int \<Rightarrow> engine \<Rightarrow> engine" where
  "cleanup now st =
     st\<lparr>thresholdState :=
          (\<lambda>key. case thresholdState st key of
                    None \<Rightarrow> None
                  | Some state \<Rightarrow>
                      if now - window_start state > 10 * 60 * 1000 then None else Some state)\<rparr>"

text \<open>
  Feeding a rule a stream of events. Each input is the list of clock readings of the
  timer callbacks that ran since the previous call, the clock reading \<open>Date.now()\<close>
  at the call, the identifier \<open>uuidv4()\<close> would return, and the event. The results
  come back in order with the final state.
\<close>

type_synonym stream_input = "int list \<times> int \<times> string \<times> jsval"

fun feed_threshold ::
  "builtins \<Rightarrow> rule \<Rightarrow> stream_input list \<Rightarrow> engine
     \<Rightarrow> (js_error + alert option) list \<times> engine" where
  "feed_threshold B rule [] st = ([], st)"
| "feed_threshold B rule ((ticks, now, uuid, event) # rest) st =
     (case processThresholdRule B now uuid event rule (fold cleanup ticks st) of
        (r, st') \<Rightarrow>
          (case feed_threshold B rule rest st' of
             (rs, st'') \<Rightarrow> (r # rs, st'')))"


fun is_alert :: "js_error + alert option \<Rightarrow> bool" where
  "is_alert (Inr (Some a)) = True"
| "is_alert r = False"

text \<open>The effective threshold \<open>threshold || 5\<close> and window \<open>(window_seconds || 60) * 1000\<close>.\<close>

definition threshold_of :: "builtins \<Rightarrow> rule \<Rightarrow> int option" where
  "threshold_of B rule = to_number B (js_or (js_get (conditions rule) ''threshold'') (JNum 5))"

definition windowMs_of :: "builtins \<Rightarrow> rule \<Rightarrow> int option" where
  "windowMs_of B rule =
     num_mul (to_number B (js_or (js_get (conditions rule) ''window_seconds'') (JNum 60)))
       (Some 1000)"

text \<open>
  A stream input "matching the rule, within the window": the event is an actual
  value and matches the rule's conditions; the call and the timer callbacks before
  it happen at clock readings in \<open>[lo, hi]\<close>; and the event's own timestamp is a
  valid date less than the window before \<open>hi\<close>.
\<close>

fun matching_input ::
  "builtins \<Rightarrow> rule \<Rightarrow> int \<Rightarrow> int \<Rightarrow> int \<Rightarrow> stream_input \<Rightarrow> bool" where
  "matching_input B rule lo hi wms (ticks, now, uuid, event) =
     (\<not> nullish event
      \<and> matchesCondition B event (conditions rule) = Inr True
      \<and> lo \<le> now \<and> now \<le> hi
      \<and> list_all (\<lambda>t. lo \<le> t \<and> t \<le> hi) ticks
      \<and> (case Date_getTime B (js_get event ''timestamp'') of
            None \<Rightarrow> False
          | Some t \<Rightarrow> hi - t < wms))"

text \<open>Such an input "of group \<open>g\<close>": the event's group value is \<open>g\<close>.\<close>

fun good_input ::
  "builtins \<Rightarrow> rule \<Rightarrow> jsval \<Rightarrow> int \<Rightarrow> int \<Rightarrow> int \<Rightarrow> stream_input \<Rightarrow> bool" where
  "good_input B rule g lo hi wms (ticks, now, uuid, event) =
     (matching_input B rule lo hi wms (ticks, now, uuid, event)
      \<and> groupValue_of B event (js_get (conditions rule) ''group_by'') = Inr g)"



section \<open>Invariants used by the proofs\<close>

text \<open>
  A window entry is "safe until \<open>hi\<close>" when its timestamp is a valid date less than
  the window before \<open>hi\<close>: pruning at any clock reading up to \<open>hi\<close> keeps it. A
  bucket holding \<open>c\<close> such entries, opened at or after \<open>lo\<close>, is what the threshold
  handler maintains on a stream of inputs processed in \<open>[lo, hi]\<close>.
\<close>

definition entry_ok :: "builtins \<Rightarrow> int \<Rightarrow> int \<Rightarrow> win_entry \<Rightarrow> bool" where
  "entry_ok B hi wms e =
     (case Date_getTime B (entry_timestamp e) of None \<Rightarrow> False | Some t \<Rightarrow> hi - t < wms)"

definition bucket_ok :: "builtins \<Rightarrow> int \<Rightarrow> int \<Rightarrow> int \<Rightarrow> win_state option \<Rightarrow> nat \<Rightarrow> bool" where
  "bucket_ok B lo hi wms b c =
     (case b of
        None \<Rightarrow> c = 0
      | Some s \<Rightarrow> lo \<le> window_start s \<and> length (events s) = c
                  \<and> list_all (entry_ok B hi wms) (events s))"



text \<open>The detail string of a threshold alert.\<close>

definition threshold_details :: "rule \<Rightarrow> nat \<Rightarrow> jsval \<Rightarrow> string" where
  "threshold_details rule n g =
     ''Threshold exceeded: '' @ show_int (int n) @ '' events in ''
       @ js_to_string (js_get (conditions rule) ''window_seconds'')
       @ ''s (group: '' @ js_to_string g @ '')''"

section \<open>Regular expressions of the syslog parser\<close>

text \<open>
  The two line formats are regular expressions over character classes, literal
  characters, capture groups, optional groups and one alternation; every quantifier
  but \<open>?\<close> sits on a single character class. The matcher is the backtracking
  matcher of the language definition, in continuation style: a pattern is matched
  against the input at hand and the continuation is asked whether the rest of the
  pattern matches what is left; the first alternative the continuation accepts wins.
\<close>

datatype cclass = Digit | Word | Space | NonSpace | AnyChar | OneOf string

definition is_word_char :: "char \<Rightarrow> bool" where
  "is_word_char c =
     (let n = (of_char c :: nat) in
      (48 \<le> n \<and> n \<le> 57) \<or> (65 \<le> n \<and> n \<le> 90) \<or> (97 \<le> n \<and> n \<le> 122) \<or> n = 95)"

text \<open>\<open>\s\<close> below code unit 256: tab, line feed, vertical tab, form feed, carriage return, space, no-break space.\<close>

definition is_space_char :: "char \<Rightarrow> bool" where
  "is_space_char c =
     (let n = (of_char c :: nat) in (9 \<le> n \<and> n \<le> 13) \<or> n = 32 \<or> n = 160)"

text \<open>\<open>.\<close> matches anything but a line terminator.\<close>

definition is_line_terminator :: "char \<Rightarrow> bool" where
  "is_line_terminator c = (let n = (of_char c :: nat) in n = 10 \<or> n = 13)"

fun in_class :: "cclass \<Rightarrow> char \<Rightarrow> bool" where
  "in_class Digit c = is_digit c"
| "in_class Word c = is_word_char c"
| "in_class Space c = is_space_char c"
| "in_class NonSpace c = (\<not> is_space_char c)"
| "in_class AnyChar c = (\<not> is_line_terminator c)"
| "in_class (OneOf cs) c = (c \<in> set cs)"

datatype regex =
    Lit char
  | Rep cclass nat "nat option" bool
  | Seq "regex list"
  | Alt regex regex
  | Opt regex
  | Cap nat regex

type_synonym captures = "nat \<Rightarrow> string option"

text \<open>
  \<open>Rep c lo hi greedy\<close> is the class \<open>c\<close> repeated \<open>lo\<close> to \<open>hi\<close> times (\<open>None\<close>: no
  upper bound). The repetition counts to try, given a run of \<open>n\<close> class characters at
  the front of the input: longest first when greedy, shortest first when lazy.
\<close>

definition rep_counts :: "nat \<Rightarrow> nat option \<Rightarrow> bool \<Rightarrow> nat \<Rightarrow> nat list" where
  "rep_counts lo hi greedy n =
     (let m = (case hi of None \<Rightarrow> n | Some h \<Rightarrow> min n h)
      in if m < lo then []
         else if greedy then rev [lo..<Suc m] else [lo..<Suc m])"

text \<open>The first candidate, in order, on which \<open>f\<close> succeeds.\<close>

fun first_some :: "('a \<Rightarrow> 'b option) \<Rightarrow> 'a list \<Rightarrow> 'b option" where
  "first_some f [] = None"
| "first_some f (x # xs) = (case f x of Some r \<Rightarrow> Some r | None \<Rightarrow> first_some f xs)"

fun rmatch :: "regex \<Rightarrow> (string \<times> captures \<Rightarrow> captures option) \<Rightarrow> string \<times> captures \<Rightarrow> captures option"
  and rmatch_seq :: "regex list \<Rightarrow> (string \<times> captures \<Rightarrow> captures option) \<Rightarrow> string \<times> captures \<Rightarrow> captures option"
where
  "rmatch (Lit c) k (s, caps) =
     (case s of [] \<Rightarrow> None | x # xs \<Rightarrow> if x = c then k (xs, caps) else None)"
| "rmatch (Rep c lo hi greedy) k (s, caps) =
     first_some (\<lambda>n. k (drop n s, caps))
       (rep_counts lo hi greedy (length (takeWhile (in_class c) s)))"
| "rmatch (Seq rs) k st = rmatch_seq rs k st"
| "rmatch (Alt a b) k st =
     (case rmatch a k st of Some r \<Rightarrow> Some r | None \<Rightarrow> rmatch b k st)"
| "rmatch (Opt a) k st =
     (case rmatch a k st of Some r \<Rightarrow> Some r | None \<Rightarrow> k st)"
| "rmatch (Cap i a) k (s, caps) =
     rmatch a (\<lambda>(rest, caps'). k (rest, caps'(i \<mapsto> take (length s - length rest) s)))
       (s, caps)"
| "rmatch_seq [] k st = k st"
| "rmatch_seq (r # rs) k st = rmatch r (rmatch_seq rs k) st"

text \<open>
  The final continuations: \<open>$\<close> accepts only at the end of the input; without it any
  position is accepted.
\<close>

definition at_end :: "string \<times> captures \<Rightarrow> captures option" where
  "at_end st = (case st of (rest, caps) \<Rightarrow> if rest = [] then Some caps else None)"

definition anywhere :: "string \<times> captures \<Rightarrow> captures option" where
  "anywhere st = Some (snd st)"

text \<open>\<open>s.match(/^...$/)\<close>: matching starts at position 0 only.\<close>

definition match_anchored :: "regex \<Rightarrow> string \<Rightarrow> captures option" where
  "match_anchored r s = rmatch r at_end (s, Map.empty)"

text \<open>\<open>s.match(/.../)\<close> without anchors: the leftmost start position that has a match.\<close>

fun match_search :: "regex \<Rightarrow> string \<Rightarrow> captures option" where
  "match_search r [] = rmatch r anywhere ([], Map.empty)"
| "match_search r (x # xs) =
     (case rmatch r anywhere (x # xs, Map.empty) of
        None \<Rightarrow> match_search r xs
      | Some caps \<Rightarrow> Some caps)"

text \<open>A capture as a JavaScript value: the matched string, or \<open>undefined\<close>.\<close>

definition cap_val :: "captures \<Rightarrow> nat \<Rightarrow> jsval" where
  "cap_val caps i = (case caps i of None \<Rightarrow> JUndefined | Some s \<Rightarrow> JStr s)"

definition cap_str :: "captures \<Rightarrow> nat \<Rightarrow> string" where
  "cap_str caps i = (case caps i of None \<Rightarrow> [] | Some s \<Rightarrow> s)"

text \<open>
  \<open>/^(?:<(\d+)>)?(\w{3}\s+\d{1,2}\s+\d{2}:\d{2}:\d{2})\s+(\S+)\s+(\S+?)(?:\[(\d+)\])?:\s*(.*)$/\<close>
\<close>

definition SYSLOG_BSD_REGEX :: regex where
  "SYSLOG_BSD_REGEX =
     Seq [Opt (Seq [Lit CHR ''<'', Cap 1 (Rep Digit 1 None True), Lit CHR ''>'']),
          Cap 2 (Seq [Rep Word 3 (Some 3) True, Rep Space 1 None True,
                      Rep Digit 1 (Some 2) True, Rep Space 1 None True,
                      Rep Digit 2 (Some 2) True, Lit CHR '':'',
                      Rep Digit 2 (Some 2) True, Lit CHR '':'',
                      Rep Digit 2 (Some 2) True]),
          Rep Space 1 None True,
          Cap 3 (Rep NonSpace 1 None True),
          Rep Space 1 None True,
          Cap 4 (Rep NonSpace 1 None False),
          Opt (Seq [Lit CHR ''['', Cap 5 (Rep Digit 1 None True), Lit CHR '']'']),
          Lit CHR '':'',
          Rep Space 0 None True,
          Cap 6 (Rep AnyChar 0 None True)]"

text \<open>
  \<open>/^(\d{4}-\d{2}-\d{2}T\d{2}:\d{2}:\d{2}(?:\.\d+)?(?:[+-]\d{2}:\d{2}|Z)?)\s+(\S+)\s+(\S+?)(?:\[(\d+)\])?:\s*(.*)$/\<close>
\<close>

definition SYSLOG_ISO_REGEX :: regex where
  "SYSLOG_ISO_REGEX =
     Seq [Cap 1 (Seq [Rep Digit 4 (Some 4) True, Lit CHR ''-'',
                      Rep Digit 2 (Some 2) True, Lit CHR ''-'',
                      Rep Digit 2 (Some 2) True, Lit CHR ''T'',
                      Rep Digit 2 (Some 2) True, Lit CHR '':'',
                      Rep Digit 2 (Some 2) True, Lit CHR '':'',
                      Rep Digit 2 (Some 2) True,
                      Opt (Seq [Lit CHR ''.'', Rep Digit 1 None True]),
                      Opt (Alt (Seq [Rep (OneOf ''+-'') 1 (Some 1) True,
                                     Rep Digit 2 (Some 2) True, Lit CHR '':'',
                                     Rep Digit 2 (Some 2) True])
                               (Lit CHR ''Z''))]),
          Rep Space 1 None True,
          Cap 2 (Rep NonSpace 1 None True),
          Rep Space 1 None True,
          Cap 3 (Rep NonSpace 1 None False),
          Opt (Seq [Lit CHR ''['', Cap 4 (Rep Digit 1 None True), Lit CHR '']'']),
          Lit CHR '':'',
          Rep Space 0 None True,
          Cap 5 (Rep AnyChar 0 None True)]"

text \<open>\<open>/(\w{3})\s+(\d{1,2})\s+(\d{2}):(\d{2}):(\d{2})/\<close> of \<open>parseTimestamp\<close>.\<close>

definition TIMESTAMP_REGEX :: regex where
  "TIMESTAMP_REGEX =
     Seq [Cap 1 (Rep Word 3 (Some 3) True), Rep Space 1 None True,
          Cap 2 (Rep Digit 1 (Some 2) True), Rep Space 1 None True,
          Cap 3 (Rep Digit 2 (Some 2) True), Lit CHR '':'',
          Cap 4 (Rep Digit 2 (Some 2) True), Lit CHR '':'',
          Cap 5 (Rep Digit 2 (Some 2) True)]"

section \<open>Syslog parser (syslogParser.js)\<close>

text \<open>
  Dates and JSON are built-ins of the runtime, taken as parameters of the parser
  models: \<open>now_ms\<close> and \<open>now_year\<close> are the time value and \<open>getFullYear()\<close> of
  \<open>new Date()\<close>; \<open>local_time y mo d h mi s\<close> is the time value of
  \<open>new Date(y, mo, d, h, mi, s)\<close> on numbers; \<open>set_full_year t y\<close> is the time value
  after \<open>setFullYear(y)\<close>; \<open>to_iso t\<close> is \<open>toISOString()\<close> of a valid date;
  \<open>date_parse s\<close> is the time value of \<open>new Date(s)\<close>, \<open>None\<close> for an invalid date;
  \<open>JSON_parse s\<close> is \<open>None\<close> when \<open>JSON.parse\<close> throws.
\<close>

record parser_env =
  now_ms :: int
  now_year :: int
  local_time :: "int \<Rightarrow> int \<Rightarrow> int \<Rightarrow> int \<Rightarrow> int \<Rightarrow> int \<Rightarrow> int"
  set_full_year :: "int \<Rightarrow> int \<Rightarrow> int"
  to_iso :: "int \<Rightarrow> string"
  date_parse :: "string \<Rightarrow> int option"
  JSON_parse :: "string \<Rightarrow> jsval option"
  JSON_stringify :: "jsval \<Rightarrow> jsval"

text \<open>
  \<open>parseInt(v)\<close> in radix 10: leading white space, an optional sign, then the longest
  run of digits; \<open>None\<close> (NaN) when there is no digit. Every argument in this program
  is \<open>undefined\<close> or a capture of \<open>\d+\<close>, so the \<open>0x\<close> prefix never arises and is not
  modelled. The result is the exact value of the digits; the program has the nearest
  double, which is the same number for a run of up to 15 digits.
\<close>

definition parseInt :: "jsval \<Rightarrow> int option" where
  "parseInt v =
     (let s = dropWhile is_space_char (js_to_string v);
          neg = (case s of [] \<Rightarrow> False | c # cs \<Rightarrow> c = CHR ''-'');
          body = (case s of [] \<Rightarrow> []
                  | c # cs \<Rightarrow> if c = CHR ''-'' \<or> c = CHR ''+'' then cs else s);
          ds = takeWhile is_digit body
      in if ds = [] then None
         else Some (if neg then - int (digits_val 0 ds) else int (digits_val 0 ds)))"

text \<open>A number as a value; NaN does not arise where this is used (the argument is a digit capture).\<close>

definition num_val :: "int option \<Rightarrow> jsval" where
  "num_val n = (case n of None \<Rightarrow> JUndefined | Some i \<Rightarrow> JNum i)"

text \<open>The remainder \<open>a % b\<close> takes the sign of \<open>a\<close>.\<close>

definition js_rem :: "int \<Rightarrow> int \<Rightarrow> int" where
  "js_rem a b = (if a \<ge> 0 then a mod b else - ((- a) mod b))"

definition MONTHS :: "(string \<times> int) list" where
  "MONTHS = [(''Jan'', 0), (''Feb'', 1), (''Mar'', 2), (''Apr'', 3),
             (''May'', 4), (''Jun'', 5), (''Jul'', 6), (''Aug'', 7),
             (''Sep'', 8), (''Oct'', 9), (''Nov'', 10), (''Dec'', 11)]"

text \<open>\<open>parsePriority(priority)\<close>: the pair \<open>(facility, severity)\<close>.\<close>

definition parsePriority :: "jsval \<Rightarrow> int \<times> int" where
  "parsePriority priority =
     (let pri = (case parseInt priority of
                   None \<Rightarrow> 13
                 | Some n \<Rightarrow> if n \<noteq> 0 then n else 13)
      in (pri div 8, js_rem pri 8))"

definition mapSeverity :: "int \<Rightarrow> string" where
  "mapSeverity syslogSeverity =
     (if syslogSeverity \<le> 2 then ''critical''
      else if syslogSeverity \<le> 4 then ''warning''
      else ''info'')"

text \<open>
  \<open>parseTimestamp(timestampStr)\<close>. A month name outside the table makes the month
  \<open>undefined\<close> and the date invalid; \<open>toISOString()\<close> on an invalid date throws a
  RangeError.
\<close>

definition parseTimestamp :: "parser_env \<Rightarrow> string \<Rightarrow> js_error + string" where
  "parseTimestamp E timestampStr =
     (case match_search TIMESTAMP_REGEX timestampStr of
        None \<Rightarrow> Inr (to_iso E (now_ms E))
      | Some parts \<Rightarrow>
          (let month = map_of MONTHS (cap_str parts 1);
               day = parseInt (cap_val parts 2);
               hours = parseInt (cap_val parts 3);
               minutes = parseInt (cap_val parts 4);
               seconds = parseInt (cap_val parts 5);
               year = now_year E;
               date = (case (month, day, hours, minutes, seconds) of
                         (Some mo, Some d, Some h, Some mi, Some s) \<Rightarrow>
                           Some (local_time E year mo d h mi s)
                       | _ \<Rightarrow> None);
               date' = (case date of
                          None \<Rightarrow> None
                        | Some t \<Rightarrow>
                            if t > now_ms E then Some (set_full_year E t (year - 1))
                            else Some t)
           in case date' of
                None \<Rightarrow> Inl RangeError
              | Some t \<Rightarrow> Inr (to_iso E t)))"

definition classifyEvent :: "string \<Rightarrow> string \<Rightarrow> string" where
  "classifyEvent program message =
     (let prog = toLowerCase program; msg = toLowerCase message
      in if prog = ''sshd'' \<or> prog = ''su'' \<or> prog = ''sudo'' \<or> prog = ''login''
            \<or> prog = ''passwd''
         then ''authentication''
         else if prog = ''iptables'' \<or> prog = ''ufw'' \<or> prog = ''firewalld''
            \<or> str_includes msg ''firewall''
         then ''firewall''
         else if prog = ''dhclient'' \<or> prog = ''networkmanager''
            \<or> str_includes msg ''connection''
         then ''network''
         else if prog = ''kernel'' \<or> prog = ''systemd'' \<or> prog = ''init''
         then ''system''
         else if prog = ''cron'' \<or> str_includes msg ''process''
            \<or> str_includes msg ''started'' \<or> str_includes msg ''stopped''
         then ''process''
         else ''system'')"

text \<open>\<open>s.trim()\<close>.\<close>

definition trim :: "string \<Rightarrow> string" where
  "trim s = rev (dropWhile is_space_char (rev (dropWhile is_space_char s)))"

text \<open>
  \<open>parse(rawLog, metadata = {})\<close> of the syslog parser. A \<open>rawLog\<close> that is not a
  string has no \<open>match\<close> method. In the object literal the timestamp is computed
  first, so a throw there leaves no event.
\<close>

definition syslog_parse :: "parser_env \<Rightarrow> jsval \<Rightarrow> jsval \<Rightarrow> js_error + jsval" where
  "syslog_parse E rawLog metadata =
     (case rawLog of
        JStr line \<Rightarrow>
          (case match_anchored SYSLOG_BSD_REGEX line of
             Some m \<Rightarrow>
               (let priority = cap_val m 1; timestampStr = cap_str m 2;
                    hostname = cap_val m 3; program = cap_str m 4;
                    pid = cap_val m 5; message = cap_str m 6;
                    facility = fst (parsePriority priority);
                    syslogSeverity = snd (parsePriority priority)
                in case parseTimestamp E timestampStr of
                     Inl err \<Rightarrow> Inl err
                   | Inr ts \<Rightarrow>
                       Inr (JObj
                         [(''timestamp'', JStr ts),
                          (''source'', JStr ''syslog''),
                          (''event_type'', JStr (classifyEvent program message)),
                          (''severity'', JStr (mapSeverity syslogSeverity)),
                          (''hostname'', hostname),
                          (''description'', JStr (''['' @ program @ ''] '' @ message)),
                          (''raw_log'', rawLog),
                          (''parsed_data'', JObj
                            [(''format'', JStr ''bsd''),
                             (''priority'', js_or (num_val (parseInt priority)) JNull),
                             (''facility'', JNum facility),
                             (''syslog_severity'', JNum syslogSeverity),
                             (''program'', JStr program),
                             (''pid'', if truthy pid then num_val (parseInt pid) else JNull),
                             (''message'', JStr message)])]))
           | None \<Rightarrow>
               (case match_anchored SYSLOG_ISO_REGEX line of
                  Some m \<Rightarrow>
                    (let isoTimestamp = cap_str m 1; hostname = cap_val m 2;
                         program = cap_str m 3; pid = cap_val m 4; message = cap_str m 5
                     in case date_parse E isoTimestamp of
                          None \<Rightarrow> Inl RangeError
                        | Some t \<Rightarrow>
                            Inr (JObj
                              [(''timestamp'', JStr (to_iso E t)),
                               (''source'', JStr ''syslog''),
                               (''event_type'', JStr (classifyEvent program message)),
                               (''severity'', JStr ''info''),
                               (''hostname'', hostname),
                               (''description'', JStr (''['' @ program @ ''] '' @ message)),
                               (''raw_log'', rawLog),
                               (''parsed_data'', JObj
                                 [(''format'', JStr ''iso''),
                                  (''program'', JStr program),
                                  (''pid'', if truthy pid then num_val (parseInt pid) else JNull),
                                  (''message'', JStr message)])]))
                | None \<Rightarrow>
                    (if metadata = JNull then Inl TypeError
                     else
                       Inr (JObj
                         [(''timestamp'', JStr (to_iso E (now_ms E))),
                          (''source'', JStr ''syslog''),
                          (''event_type'', JStr ''system''),
                          (''severity'', JStr ''info''),
                          (''hostname'', js_or (js_get metadata ''hostname'') (JStr ''unknown'')),
                          (''description'', JStr (trim line)),
                          (''raw_log'', rawLog),
                          (''parsed_data'', JObj [(''format'', JStr ''non-standard'')])]))))
      | _ \<Rightarrow> Inl TypeError)"

section \<open>Windows event parser (windowsEventParser.js)\<close>

text \<open>
  The table \<open>EVENT_MAPPINGS\<close>: an object literal keyed by the event ID, each entry
  an object \<open>{ type, severity, desc }\<close>.
\<close>

definition mapping_entry :: "string \<Rightarrow> string \<Rightarrow> string \<Rightarrow> jsval" where
  "mapping_entry t s d = JObj [(''type'', JStr t), (''severity'', JStr s), (''desc'', JStr d)]"

definition EVENT_MAPPINGS :: jsval where
  "EVENT_MAPPINGS = JObj
     [(''4624'', mapping_entry ''authentication'' ''info'' ''Successful logon''),
      (''4625'', mapping_entry ''authentication'' ''warning'' ''Failed logon''),
      (''4634'', mapping_entry ''authentication'' ''info'' ''Logoff''),
      (''4647'', mapping_entry ''authentication'' ''info'' ''User initiated logoff''),
      (''4648'', mapping_entry ''authentication'' ''info'' ''Logon using explicit credentials''),
      (''4672'', mapping_entry ''privilege'' ''warning'' ''Special privileges assigned''),
      (''4720'', mapping_entry ''account'' ''warning'' ''User account created''),
      (''4722'', mapping_entry ''account'' ''warning'' ''User account enabled''),
      (''4723'', mapping_entry ''account'' ''info'' ''Password change attempted''),
      (''4724'', mapping_entry ''account'' ''warning'' ''Password reset attempted''),
      (''4725'', mapping_entry ''account'' ''warning'' ''User account disabled''),
      (''4726'', mapping_entry ''account'' ''warning'' ''User account deleted''),
      (''4738'', mapping_entry ''account'' ''info'' ''User account changed''),
      (''4740'', mapping_entry ''account'' ''warning'' ''User account locked out''),
      (''4688'', mapping_entry ''process'' ''info'' ''New process created''),
      (''4689'', mapping_entry ''process'' ''info'' ''Process exited''),
      (''7045'', mapping_entry ''service'' ''warning'' ''New service installed''),
      (''4697'', mapping_entry ''service'' ''warning'' ''Service installed''),
      (''4656'', mapping_entry ''file_access'' ''info'' ''Handle requested''),
      (''4663'', mapping_entry ''file_access'' ''info'' ''Object access attempted''),
      (''4719'', mapping_entry ''policy'' ''critical'' ''System audit policy changed''),
      (''1102'', mapping_entry ''security'' ''critical'' ''Audit log cleared''),
      (''4616'', mapping_entry ''security'' ''critical'' ''System time changed''),
      (''4698'', mapping_entry ''scheduled_task'' ''warning'' ''Scheduled task created''),
      (''4699'', mapping_entry ''scheduled_task'' ''info'' ''Scheduled task deleted''),
      (''4702'', mapping_entry ''scheduled_task'' ''warning'' ''Scheduled task updated'')]"

definition LOGON_TYPES :: jsval where
  "LOGON_TYPES = JObj
     [(''2'', JStr ''Interactive''), (''3'', JStr ''Network''), (''4'', JStr ''Batch''),
      (''5'', JStr ''Service''), (''7'', JStr ''Unlock''), (''8'', JStr ''NetworkCleartext''),
      (''9'', JStr ''NewCredentials''), (''10'', JStr ''RemoteInteractive''),
      (''11'', JStr ''CachedInteractive'')]"

text \<open>
  A read \<open>table[key]\<close> of one of the two tables with a computed key: the key is
  converted to a string, which throws on a value without a string form, and the
  table is searched with what it inherits.
\<close>

definition table_lookup :: "builtins \<Rightarrow> jsval \<Rightarrow> jsval \<Rightarrow> js_error + jsval" where
  "table_lookup B table key =
     (if \<not> printable key then Inl TypeError else js_lookup B table (js_to_string key))"

text \<open>\<open>props[i]?.Value || props[i]\<close>, the positional read used throughout.\<close>

definition prop_at :: "jsval \<Rightarrow> nat \<Rightarrow> jsval" where
  "prop_at props i =
     js_or (js_get_opt (js_get props (show_nat i)) ''Value'') (js_get props (show_nat i))"

text \<open>\<open>event.Properties || event.properties\<close>.\<close>

definition event_props :: "jsval \<Rightarrow> jsval" where
  "event_props event = js_or (js_get event ''Properties'') (js_get event ''properties'')"

text \<open>\<open>parsed.parsed_data[k] = v\<close>.\<close>

definition set_parsed_data :: "jsval \<Rightarrow> string \<Rightarrow> jsval \<Rightarrow> jsval" where
  "set_parsed_data parsed k v =
     js_set parsed ''parsed_data'' (js_set (js_get parsed ''parsed_data'') k v)"

text \<open>The generic branch of \<open>extractUser\<close>: the first property that looks like a plain name.\<close>

fun first_plain_name :: "jsval list \<Rightarrow> jsval" where
  "first_plain_name [] = JNull"
| "first_plain_name (prop # props) =
     (case js_or (js_get_opt prop ''Value'') prop of
        JStr val \<Rightarrow>
          if val \<noteq> [] \<and> \<not> str_includes val [BSL] \<and> \<not> str_includes val ''-''
          then JStr val else first_plain_name props
      | _ \<Rightarrow> first_plain_name props)"

definition extractUser :: "jsval \<Rightarrow> jsval \<Rightarrow> jsval" where
  "extractUser properties eventId =
     (if \<not> truthy properties \<or> \<not> is_array properties then JNull
      else if eventId = JNum 4624 \<or> eventId = JNum 4625
        then js_or (prop_at properties 5) JNull
      else if eventId = JNum 4688
        then js_or (prop_at properties 1) JNull
      else first_plain_name (array_items properties))"

text \<open>
  \<open>props.length >= n\<close>; the comparison converts the length and throws on one
  without a string form, which the callers test first.
\<close>

definition props_at_least :: "builtins \<Rightarrow> jsval \<Rightarrow> int \<Rightarrow> bool" where
  "props_at_least B props n = num_ge (to_number B (js_get props ''length'')) (Some n)"

text \<open>
  \<open>parseLogonEvent(parsed, event)\<close>. The logon type is looked up in
  \<open>LOGON_TYPES\<close>; the description interpolates the logon type, the user and the
  address, and throws when one of them has no string form.
\<close>

definition parseLogonEvent :: "builtins \<Rightarrow> jsval \<Rightarrow> jsval \<Rightarrow> js_error + jsval" where
  "parseLogonEvent B parsed event =
     (let props = js_or (event_props event) (JArr [])
      in if \<not> printable (js_get props ''length'') then Inl TypeError
         else if props_at_least B props 10
         then
           (case table_lookup B LOGON_TYPES (prop_at props 8) of
              Inl err \<Rightarrow> Inl err
            | Inr found \<Rightarrow>
               (let logonType = js_or found (JStr ''Unknown'');
                    user = prop_at props 5;
                    ip = js_or (prop_at props 18) (JStr ''local'');
                    p1 = set_parsed_data parsed ''logon_type'' logonType;
                    p2 = set_parsed_data p1 ''target_user'' user;
                    p3 = set_parsed_data p2 ''target_domain'' (prop_at props 6);
                    p4 = set_parsed_data p3 ''source_ip'' ip;
                    p5 = set_parsed_data p4 ''source_port'' (prop_at props 19);
                    p6 = set_parsed_data p5 ''workstation'' (prop_at props 11)
                in if \<not> printable logonType \<or> \<not> printable user \<or> \<not> printable ip
                   then Inl TypeError
                   else if js_get event ''Id'' = JNum 4625
                   then Inr (set_parsed_data
                          (js_set p6 ''description''
                             (JStr (''Failed '' @ js_to_string logonType @ '' logon for ''
                                      @ js_to_string user @ '' from '' @ js_to_string ip)))
                          ''failure_reason'' (prop_at props 13))
                   else Inr (js_set p6 ''description''
                          (JStr (js_to_string logonType @ '' logon for ''
                                   @ js_to_string user @ '' from '' @ js_to_string ip)))))
         else Inr parsed)"

text \<open>
  \<open>parseProcessEvent(parsed, event)\<close>. \<open>new_process_name?.split('\\').pop()\<close> skips a
  \<open>null\<close> or \<open>undefined\<close> name but calls \<open>split\<close> on anything else: a name that is
  not a string has no such method and the call throws. The path tested for the temp
  directories is the name in lower case, or the empty string.
\<close>

definition parseProcessEvent :: "builtins \<Rightarrow> jsval \<Rightarrow> jsval \<Rightarrow> js_error + jsval" where
  "parseProcessEvent B parsed event =
     (let props = js_or (event_props event) (JArr [])
      in if \<not> printable (js_get props ''length'') then Inl TypeError
         else if props_at_least B props 10
         then
           (let name = prop_at props 5;
                p1 = set_parsed_data parsed ''new_process_name'' name;
                p2 = set_parsed_data p1 ''command_line'' (prop_at props 8);
                p3 = set_parsed_data p2 ''creator_process'' (prop_at props 13);
                p4 = set_parsed_data p3 ''token_elevation'' (prop_at props 6)
            in case (if nullish name then Inr []
                     else case name of
                            JStr s \<Rightarrow> Inr (last (split_on BSL s))
                          | _ \<Rightarrow> Inl TypeError) of
                 Inl err \<Rightarrow> Inl err
               | Inr popped \<Rightarrow>
                   (let processName = (if popped = [] then ''Unknown'' else popped);
                        p5 = js_set p4 ''description'' (JStr (''Process created: '' @ processName));
                        processPath = toLowerCase (js_to_string (js_or name (JStr [])))
                    in if str_includes processPath ([BSL] @ ''temp'' @ [BSL])
                          \<or> str_includes processPath ([BSL] @ ''tmp'' @ [BSL])
                          \<or> str_includes processPath
                               ([BSL] @ ''appdata'' @ [BSL] @ ''local'' @ [BSL] @ ''temp'')
                       then Inr (js_set (js_set p5 ''severity'' (JStr ''warning''))
                                   ''description''
                                   (JStr (''Suspicious: Process from temp directory: ''
                                            @ processName)))
                       else Inr p5))
         else Inr parsed)"

text \<open>
  \<open>parseServiceEvent(parsed, event)\<close>; the description interpolates the service
  name.
\<close>

definition parseServiceEvent :: "builtins \<Rightarrow> jsval \<Rightarrow> jsval \<Rightarrow> js_error + jsval" where
  "parseServiceEvent B parsed event =
     (let props = js_or (event_props event) (JArr [])
      in if \<not> printable (js_get props ''length'') then Inl TypeError
         else if props_at_least B props 5
         then
           (let p1 = set_parsed_data parsed ''service_name'' (prop_at props 0);
                p2 = set_parsed_data p1 ''service_path'' (prop_at props 1);
                p3 = set_parsed_data p2 ''service_type'' (prop_at props 2);
                p4 = set_parsed_data p3 ''service_start_type'' (prop_at props 3);
                p5 = set_parsed_data p4 ''service_account'' (prop_at props 4);
                serviceName = js_or (prop_at props 0) (JStr ''Unknown'')
            in if \<not> printable serviceName then Inl TypeError
               else Inr (js_set p5 ''description''
                      (JStr (''New service installed: '' @ js_to_string serviceName))))
         else Inr parsed)"

text \<open>
  \<open>parseWindowsEvent(event)\<close>. Reading \<open>event.Id\<close> throws on \<open>null\<close> and
  \<open>undefined\<close>; on any other value that is not an object every field reads as
  \<open>undefined\<close>. The mapping is what \<open>EVENT_MAPPINGS[eventId]\<close> finds, own or
  inherited, or the default entry when that is falsy; its three fields are read
  from it as they are.
\<close>

definition parseWindowsEvent :: "builtins \<Rightarrow> parser_env \<Rightarrow> jsval \<Rightarrow> js_error + jsval" where
  "parseWindowsEvent B E event =
     (if nullish event then Inl TypeError
      else
        let eventId = js_or (js_or (js_get event ''Id'') (js_get event ''EventId''))
                        (js_get event ''event_id'')
        in case table_lookup B EVENT_MAPPINGS eventId of
             Inl err \<Rightarrow> Inl err
           | Inr found \<Rightarrow>
          (let mapping = js_or found
                 (JObj [(''type'', JStr ''windows''), (''severity'', JStr ''info''),
                        (''desc'', JStr (''Windows Event '' @ js_to_string eventId))])
           in case js_lookup B mapping ''type'' of
                Inl err \<Rightarrow> Inl err
              | Inr mtype \<Rightarrow>
             (case js_lookup B mapping ''severity'' of
                Inl err \<Rightarrow> Inl err
              | Inr mseverity \<Rightarrow>
             (case js_lookup B mapping ''desc'' of
                Inl err \<Rightarrow> Inl err
              | Inr mdesc \<Rightarrow>
          (let parsed = JObj
              [(''timestamp'',
                  js_or (js_or (js_get event ''TimeCreated'') (js_get event ''time_created''))
                    (JStr (to_iso E (now_ms E)))),
               (''source'', JStr ''windows''),
               (''event_type'', mtype),
               (''severity'', mseverity),
               (''hostname'',
                  js_or (js_or (js_get event ''MachineName'') (js_get event ''Computer''))
                    (js_get event ''hostname'')),
               (''description'', mdesc),
               (''raw_log'', JSON_stringify E event),
               (''parsed_data'', JObj
                 [(''event_id'', eventId),
                  (''provider'', js_or (js_get event ''ProviderName'') (js_get event ''provider'')),
                  (''log_name'',
                     js_or (js_or (js_get event ''LogName'') (js_get event ''log_name''))
                       (JStr ''Security'')),
                  (''level'', js_or (js_get event ''Level'') (js_get event ''level'')),
                  (''keywords'', js_or (js_get event ''Keywords'') (js_get event ''keywords'')),
                  (''task'', js_or (js_get event ''Task'') (js_get event ''task'')),
                  (''opcode'', js_or (js_get event ''Opcode'') (js_get event ''opcode''))])];
            parsed' =
              (if truthy (event_props event)
               then set_parsed_data
                      (js_set parsed ''user'' (extractUser (event_props event) eventId))
                      ''properties'' (event_props event)
               else parsed)
           in if eventId = JNum 4624 \<or> eventId = JNum 4625
                then parseLogonEvent B parsed' event
              else if eventId = JNum 4688
                then parseProcessEvent B parsed' event
              else if eventId = JNum 7045 \<or> eventId = JNum 4697
                then parseServiceEvent B parsed' event
              else Inr parsed')))))"

text \<open>
  \<open>parse(rawData, metadata = {})\<close> of the Windows parser: a string is decoded as
  JSON, with the degraded event when decoding throws; whatever else comes in, and
  whatever the decoding gives, goes to \<open>parseWindowsEvent\<close>.
\<close>

definition windows_parse :: "builtins \<Rightarrow> parser_env \<Rightarrow> jsval \<Rightarrow> jsval \<Rightarrow> js_error + jsval" where
  "windows_parse B E rawData metadata =
     (case rawData of
        JStr text \<Rightarrow>
          (case JSON_parse E text of
             None \<Rightarrow>
               (if metadata = JNull then Inl TypeError
                else
                  Inr (JObj
                    [(''timestamp'', JStr (to_iso E (now_ms E))),
                     (''source'', JStr ''windows''),
                     (''event_type'', JStr ''windows''),
                     (''severity'', JStr ''info''),
                     (''hostname'', js_or (js_get metadata ''hostname'') (JStr ''unknown'')),
                     (''description'', rawData),
                     (''raw_log'', rawData),
                     (''parsed_data'', JObj [(''format'', JStr ''non-json'')])]))
           | Some event \<Rightarrow> parseWindowsEvent B E event)
      | _ \<Rightarrow> parseWindowsEvent B E rawData)"

text \<open>A field of the event a parser returned; \<open>undefined\<close> when the parser threw.\<close>

definition event_field :: "js_error + jsval \<Rightarrow> string \<Rightarrow> jsval" where
  "event_field r k = (case r of Inl err \<Rightarrow> JUndefined | Inr ev \<Rightarrow> js_get ev k)"

section \<open>Fixtures for the closed examples\<close>

text \<open>
  The closed examples below run the model in one fixed environment: a pattern
  \<open>(\<close> does not compile and any other pattern is searched as a literal, ignoring
  case; a numeric timestamp is its own time value; a string of digits is its decimal
  number; of the members an object inherits only \<open>constructor\<close>, the function
  \<open>Object\<close>, is present. The general theorems hold for every environment.
\<close>

definition demo_builtins :: builtins where
  "demo_builtins =
     \<lparr>RegExp_i = (\<lambda>p. if p = ''('' then None
                       else Some (\<lambda>s. str_includes (toLowerCase s) (toLowerCase p))),
      Date_getTime = (\<lambda>v. case v of JNum n \<Rightarrow> Some n | _ \<Rightarrow> None),
      StringToNumber = (\<lambda>s. if list_all is_digit s then Some (int (digits_val 0 s)) else None),
      Inherited = (\<lambda>v k. case v of
                     JObj kvs \<Rightarrow>
                       if k = ''constructor''
                       then Inr (JBuiltin 1 ''function Object() { [native code] }'')
                       else Inr JUndefined
                   | _ \<Rightarrow> Inr JUndefined)\<rparr>"

text \<open>A fresh engine, the embedded SSH brute-force rule with threshold \<open>n\<close> and a window of \<open>w\<close> seconds, and a failed SSH login.\<close>

definition empty_engine :: engine where
  "empty_engine = \<lparr>thresholdState = (\<lambda>k. None), alerts_table = [], match_count = (\<lambda>r. 0)\<rparr>"

definition demo_threshold_rule :: "int \<Rightarrow> int \<Rightarrow> rule" where
  "demo_threshold_rule n w =
     \<lparr>rule_id = ''brute-force-ssh'',
      rule_name = ''SSH Brute Force Detection'',
      description = Some ''Detects failed SSH logins from the same IP'',
      rule_severity = ''critical'',
      rule_type = ''threshold'',
      conditions = JObj [(''field'', JStr ''parsed_data.auth_type''),
                         (''equals'', JStr ''ssh''),
                         (''additional'', JObj [(''field'', JStr ''parsed_data.auth_result''),
                                                (''equals'', JStr ''failure'')]),
                         (''threshold'', JNum n),
                         (''window_seconds'', JNum w),
                         (''group_by'', JStr ''parsed_data.source_ip'')]\<rparr>"

definition demo_login_event :: "string \<Rightarrow> int \<Rightarrow> string \<Rightarrow> string \<Rightarrow> jsval" where
  "demo_login_event i t result ip =
     JObj [(''id'', JStr i), (''timestamp'', JNum t),
           (''event_type'', JStr ''authentication''),
           (''parsed_data'', JObj [(''auth_type'', JStr ''ssh''),
                                   (''auth_result'', JStr result),
                                   (''source_ip'', JStr ip)])]"

abbreviation demo_failure_event :: "string \<Rightarrow> int \<Rightarrow> jsval" where
  "demo_failure_event i t \<equiv> demo_login_event i t ''failure'' ''10.0.0.9''"









text \<open>
  A parser environment for closed examples: the clock stands at time value
  1768732300000 in the year 2026, on a calendar of twelve 31-day months, and time
  values are printed as their number; \<open>JSON.parse\<close> decodes the literal \<open>null\<close> and
  rejects any other text. No theorem depends on these choices.
\<close>

definition demo_parser_env :: parser_env where
  "demo_parser_env =
     \<lparr>now_ms = 1768732300000,
      now_year = 2026,
      local_time = (\<lambda>y mo d h mi s. ((((y * 12 + mo) * 31 + d) * 24 + h) * 60 + mi) * 60000 + s * 1000),
      set_full_year = (\<lambda>t y. t - 12 * 31 * 24 * 60 * 60000),
      to_iso = (\<lambda>t. ''time:'' @ show_int t),
      date_parse = (\<lambda>s. None),
      JSON_parse = (\<lambda>s. if s = ''null'' then Some JNull else None),
      JSON_stringify = (\<lambda>v. JStr (js_to_string v))\<rparr>"

text \<open>A process-creation record (event 4688) with ten properties, the executable path at index 5.\<close>

definition demo_process_event :: "string \<Rightarrow> jsval" where
  "demo_process_event path =
     JObj [(''Id'', JNum 4688),
           (''MachineName'', JStr ''WS-01''),
           (''Properties'', JArr
              [JStr ''S-1-5-18'', JStr ''alice'', JStr ''CORP'', JStr ''0x3e7'', JStr ''0x1a2c'',
               JStr path, JStr ''%%1936'', JStr ''0x4d8'', JStr ''cmd /c run'',
               JStr ''S-1-0-0''])]"

text \<open>The path \<open>C:\Windows\Temp\evil.EXE\<close>.\<close>

definition demo_temp_path :: string where
  "demo_temp_path = ''C:'' @ [BSL] @ ''Windows'' @ [BSL] @ ''Temp'' @ [BSL] @ ''evil.EXE''"



section \<open>Properties\<close>

subsection \<open>Condition matcher\<close>

lemma rule_description_row [simp]:
  "rule_description \<lparr>rule_id = i, rule_name = n, description = d, rule_severity = s,
                      rule_type = t, conditions = c\<rparr>
     = (case d of None \<Rightarrow> JNull | Some text \<Rightarrow> JStr text)"
  by (simp add: rule_description_def)

lemmas check_defs = getFieldValue_def js_lookup_def equals_fails_def contains_fails_def
  contains_any_fails_def matches_fails_def

lemma strict_eq_undefined: "strict_eq JUndefined v \<longleftrightarrow> v = JUndefined"
  by (cases v) auto

text \<open>An absent path reads as \<open>undefined\<close>.\<close>

lemma walk_path_undefined: "walk_path B parts JUndefined = Inr JUndefined"
  by (cases parts) auto

lemma field_absent_walk:
  "field_absent B parts v \<Longrightarrow> walk_path B parts v = Inr JUndefined"
proof (induction parts arbitrary: v)
  case Nil
  then show ?case by simp
next
  case (Cons part parts)
  show ?case
  proof (cases "v = JNull \<or> v = JUndefined")
    case True
    then show ?thesis by auto
  next
    case False
    show ?thesis
    proof (cases "own_property v part")
      case None
      with Cons.prems False have "Inherited B v part = Inr JUndefined" by simp
      with None False show ?thesis
        by (simp add: js_lookup_def walk_path_undefined)
    next
      case (Some v')
      with Cons.prems False have "field_absent B parts v'" by simp
      from Cons.IH [OF this] Some False show ?thesis
        by (simp add: js_lookup_def)
    qed
  qed
qed

lemma absent_field_value:
  assumes "path \<noteq> []" and "field_absent B (split_on CHR ''.'' path) event"
  shows "getFieldValue B event (JStr path) = Inr JUndefined"
  using assms by (simp add: getFieldValue_def field_absent_walk)

text \<open>A path that leads to a value reads as that value.\<close>

lemma own_property_not_nullish: "own_property v k = Some v' \<Longrightarrow> v \<noteq> JNull \<and> v \<noteq> JUndefined"
  by (cases v) auto

lemma field_at_walk:
  "field_at parts v = Some fv \<Longrightarrow> walk_path B parts v = Inr fv"
proof (induction parts arbitrary: v)
  case Nil
  then show ?case by simp
next
  case (Cons part parts)
  from Cons.prems obtain v' where v': "own_property v part = Some v'" "field_at parts v' = Some fv"
    by (auto split: option.splits)
  from own_property_not_nullish [OF v'(1)] v'(1) Cons.IH [OF v'(2)] show ?case
    by (simp add: js_lookup_def)
qed

lemma present_field_value:
  assumes "path \<noteq> []" and "truthy event" and "field_at (split_on CHR ''.'' path) event = Some fv"
  shows "getFieldValue B event (JStr path) = Inr fv"
  using assms by (simp add: getFieldValue_def field_at_walk)

lemma no_field_value:
  assumes "\<not> truthy fieldPath \<or> \<not> truthy event"
  shows "getFieldValue B event fieldPath = Inr JUndefined"
  using assms by (auto simp: getFieldValue_def)


lemma demo_login_group:
  "groupValue_of demo_builtins (demo_login_event i t r ip) (JStr ''parsed_data.source_ip'')
     = Inr (JStr ip)"
  "groupValue_of demo_builtins (demo_login_event i t r ip) (JStr ''hostname'') = Inr JUndefined"
  "groupValue_of demo_builtins (demo_login_event i t r ip) JUndefined = Inr (JStr ''global'')"
  by (simp_all add: demo_login_event_def groupValue_of_def check_defs demo_builtins_def)

lemma demo_login_entry:
  "in_window demo_builtins now (Some wms) (entry_of (demo_login_event i t r ip)) \<longleftrightarrow> now - t < wms"
  by (simp add: in_window_def entry_of_def demo_login_event_def demo_builtins_def
      num_lt_def num_sub_def)

lemma demo_login_not_nullish: "\<not> nullish (demo_login_event i t r ip)"
  by (simp add: nullish_def demo_login_event_def)

text \<open>
  C3, as stated, fails: a node that carries an \<open>any\<close> list next to a field-level
  check is decided by the list alone. The event \<open>{a: 1}\<close> matches the node
  \<open>{any: [{field: "a", equals: 1}], field: "a", equals: 2}\<close> although the node's own
  \<open>equals\<close> check fails on the value 1 of field \<open>a\<close>.
\<close>

theorem any_list_overrides_field_checks_counterexample:
  "matchesCondition demo_builtins (JObj [(''a'', JNum 1)])
     (JObj [(''any'', JArr [JObj [(''field'', JStr ''a''), (''equals'', JNum 1)]]),
            (''field'', JStr ''a''), (''equals'', JNum 2)]) = Inr True
   \<and> getFieldValue demo_builtins (JObj [(''a'', JNum 1)])
        (js_get (JObj [(''any'', JArr [JObj [(''field'', JStr ''a''), (''equals'', JNum 1)]]),
            (''field'', JStr ''a''), (''equals'', JNum 2)]) ''field'') = Inr (JNum 1)
   \<and> equals_fails
        (JObj [(''any'', JArr [JObj [(''field'', JStr ''a''), (''equals'', JNum 1)]]),
            (''field'', JStr ''a''), (''equals'', JNum 2)]) (JNum 1)"
  by (simp add: matchesCondition.simps check_defs)

text \<open>
  \<open>some\<close> stops at the first element for which the callback returns true, and a
  callback that throws ends the whole call; \<open>every\<close> stops at the first element
  for which it returns false.
\<close>

lemma some_match_iff:
  "some_match B event cs = Inr True \<longleftrightarrow>
     (\<exists>i<length cs. matchesCondition B event (cs ! i) = Inr True
        \<and> (\<forall>j<i. matchesCondition B event (cs ! j) = Inr False))"
proof (induction cs)
  case Nil
  then show ?case by simp
next
  case (Cons c cs)
  show ?case
  proof (cases "matchesCondition B event c")
    case (Inl err)
    have "\<not> (\<exists>i<length (c # cs). matchesCondition B event ((c # cs) ! i) = Inr True
        \<and> (\<forall>j<i. matchesCondition B event ((c # cs) ! j) = Inr False))"
    proof
      assume "\<exists>i<length (c # cs). matchesCondition B event ((c # cs) ! i) = Inr True
        \<and> (\<forall>j<i. matchesCondition B event ((c # cs) ! j) = Inr False)"
      then obtain i where i: "matchesCondition B event ((c # cs) ! i) = Inr True"
        "\<forall>j<i. matchesCondition B event ((c # cs) ! j) = Inr False" by blast
      show False
      proof (cases i)
        case 0
        with i(1) Inl show False by simp
      next
        case (Suc n)
        with i(2) have "matchesCondition B event ((c # cs) ! 0) = Inr False" by blast
        with Inl show False by simp
      qed
    qed
    with Inl show ?thesis by simp
  next
    case (Inr m)
    show ?thesis
    proof (cases m)
      case True
      have "0 < length (c # cs) \<and> matchesCondition B event ((c # cs) ! 0) = Inr True
          \<and> (\<forall>j<0. matchesCondition B event ((c # cs) ! j) = Inr False)"
        using Inr True by simp
      then have "\<exists>i<length (c # cs). matchesCondition B event ((c # cs) ! i) = Inr True
          \<and> (\<forall>j<i. matchesCondition B event ((c # cs) ! j) = Inr False)"
        by blast
      with Inr True show ?thesis by simp
    next
      case False
      have "(\<exists>i<length (c # cs). matchesCondition B event ((c # cs) ! i) = Inr True
              \<and> (\<forall>j<i. matchesCondition B event ((c # cs) ! j) = Inr False))
          \<longleftrightarrow> (\<exists>i<length cs. matchesCondition B event (cs ! i) = Inr True
              \<and> (\<forall>j<i. matchesCondition B event (cs ! j) = Inr False))"
      proof
        assume "\<exists>i<length (c # cs). matchesCondition B event ((c # cs) ! i) = Inr True
              \<and> (\<forall>j<i. matchesCondition B event ((c # cs) ! j) = Inr False)"
        then obtain i where i: "i < length (c # cs)"
          "matchesCondition B event ((c # cs) ! i) = Inr True"
          "\<forall>j<i. matchesCondition B event ((c # cs) ! j) = Inr False" by blast
        from i(2) Inr False obtain n where n: "i = Suc n" by (cases i) auto
        from i(3) n have "\<forall>j<n. matchesCondition B event (cs ! j) = Inr False" by auto
        with i(1,2) n show "\<exists>i<length cs. matchesCondition B event (cs ! i) = Inr True
              \<and> (\<forall>j<i. matchesCondition B event (cs ! j) = Inr False)" by auto
      next
        assume "\<exists>i<length cs. matchesCondition B event (cs ! i) = Inr True
              \<and> (\<forall>j<i. matchesCondition B event (cs ! j) = Inr False)"
        then obtain n where n: "n < length cs" "matchesCondition B event (cs ! n) = Inr True"
          "\<forall>j<n. matchesCondition B event (cs ! j) = Inr False" by blast
        have "\<forall>j<Suc n. matchesCondition B event ((c # cs) ! j) = Inr False"
          using n(3) Inr False by (auto simp: less_Suc_eq_0_disj)
        with n(1,2) have "Suc n < length (c # cs)
            \<and> matchesCondition B event ((c # cs) ! Suc n) = Inr True
            \<and> (\<forall>j<Suc n. matchesCondition B event ((c # cs) ! j) = Inr False)" by simp
        then show "\<exists>i<length (c # cs). matchesCondition B event ((c # cs) ! i) = Inr True
              \<and> (\<forall>j<i. matchesCondition B event ((c # cs) ! j) = Inr False)" by blast
      qed
      with Inr False Cons.IH show ?thesis by simp
    qed
  qed
qed

lemma every_match_iff:
  "every_match B event cs = Inr True \<longleftrightarrow>
     (\<forall>c \<in> set cs. matchesCondition B event c = Inr True)"
  by (induction cs) (auto split: sum.splits bool.splits)

lemma field_level_node_iff:
  assumes "\<not> is_array (js_get c ''any'')" and "\<not> is_array (js_get c ''all'')"
  shows "matchesCondition B event c = Inr True \<longleftrightarrow>
     truthy c \<and>
     (\<exists>fieldValue. getFieldValue B event (js_get c ''field'') = Inr fieldValue
        \<and> \<not> equals_fails c fieldValue
        \<and> contains_fails c fieldValue = Inr False
        \<and> contains_any_fails c fieldValue = Inr False
        \<and> \<not> matches_fails B c fieldValue
        \<and> (truthy (js_get c ''not'') \<longrightarrow>
              matchesCondition B event (js_get c ''not'') = Inr False)
        \<and> (truthy (js_get c ''additional'') \<longrightarrow>
              matchesCondition B event (js_get c ''additional'') = Inr True))"
  using assms
  by (subst matchesCondition.simps) (auto split: sum.splits bool.splits)

text \<open>
  C3, amended: a node with an \<open>any\<close> array matches exactly when one element of the
  list matches and every element before it evaluates to a non-match (an element that
  throws ends the evaluation); otherwise a node with an \<open>all\<close> array matches exactly
  when every element matches; the other keys of such nodes play no part. Any other
  node matches exactly when the field lookup does not throw and every check present
  on the node passes without throwing (\<open>equals\<close>, \<open>contains\<close>, \<open>contains_any\<close>,
  \<open>matches\<close>, \<open>not\<close>, \<open>additional\<close>).
\<close>

theorem node_matches_iff_checks_pass:
  "matchesCondition B event c = Inr True \<longleftrightarrow>
     truthy c \<and>
     (if is_array (js_get c ''any'')
        then (\<exists>i < length (array_items (js_get c ''any'')).
                matchesCondition B event (array_items (js_get c ''any'') ! i) = Inr True
                \<and> (\<forall>j<i. matchesCondition B event (array_items (js_get c ''any'') ! j)
                            = Inr False))
      else if is_array (js_get c ''all'')
        then (\<forall>c' \<in> set (array_items (js_get c ''all'')).
                matchesCondition B event c' = Inr True)
      else (\<exists>fieldValue. getFieldValue B event (js_get c ''field'') = Inr fieldValue
              \<and> \<not> equals_fails c fieldValue
              \<and> contains_fails c fieldValue = Inr False
              \<and> contains_any_fails c fieldValue = Inr False
              \<and> \<not> matches_fails B c fieldValue
              \<and> (truthy (js_get c ''not'') \<longrightarrow>
                    matchesCondition B event (js_get c ''not'') = Inr False)
              \<and> (truthy (js_get c ''additional'') \<longrightarrow>
                    matchesCondition B event (js_get c ''additional'') = Inr True)))"
proof (cases "is_array (js_get c ''any'')")
  case True
  have "matchesCondition B event c = Inr True \<longleftrightarrow>
      truthy c \<and> some_match B event (array_items (js_get c ''any'')) = Inr True"
    using True by (subst matchesCondition.simps) simp
  with True show ?thesis by (simp only: some_match_iff if_True)
next
  case False
  show ?thesis
  proof (cases "is_array (js_get c ''all'')")
    case True
    have "matchesCondition B event c = Inr True \<longleftrightarrow>
        truthy c \<and> every_match B event (array_items (js_get c ''all'')) = Inr True"
      using True False by (subst matchesCondition.simps) simp
    with True False show ?thesis by (simp only: every_match_iff if_True if_False)
  next
    case all: False
    from field_level_node_iff [OF False all] False all show ?thesis
      by (simp only: if_False)
  qed
qed

theorem node_matches_iff_checks_pass_witness:
  "matchesCondition demo_builtins (JObj [(''a'', JNum 1), (''b'', JStr ''xyz'')])
     (JObj [(''any'', JArr [JObj [(''field'', JStr ''a''), (''equals'', JNum 2)],
                            JObj [(''field'', JStr ''b''), (''contains'', JStr ''X'')]])])
   = Inr True
   \<and> matchesCondition demo_builtins (JObj [(''a'', JNum 1), (''b'', JStr ''xyz'')])
     (JObj [(''all'', JArr [JObj [(''field'', JStr ''a''), (''equals'', JNum 1)],
                            JObj [(''field'', JStr ''b''), (''contains'', JStr ''X'')]])])
   = Inr True
   \<and> matchesCondition demo_builtins (JObj [(''a'', JNum 1), (''b'', JStr ''xyz'')])
     (JObj [(''all'', JArr [JObj [(''field'', JStr ''a''), (''equals'', JNum 2)],
                            JObj [(''field'', JStr ''b''), (''contains'', JStr ''X'')]])])
   \<noteq> Inr True
   \<and> matchesCondition demo_builtins (JObj [(''a'', JNum 1), (''b'', JStr ''xyz'')])
     (JObj [(''field'', JStr ''a''), (''equals'', JNum 1),
            (''additional'', JObj [(''field'', JStr ''b''), (''contains'', JStr ''X'')])])
   = Inr True"
proof -
  let ?ev = "JObj [(''a'', JNum 1), (''b'', JStr ''xyz'')]"
  let ?a1 = "JObj [(''field'', JStr ''a''), (''equals'', JNum 1)]"
  let ?a2 = "JObj [(''field'', JStr ''a''), (''equals'', JNum 2)]"
  let ?bx = "JObj [(''field'', JStr ''b''), (''contains'', JStr ''X'')]"
  let ?any = "JObj [(''any'', JArr [?a2, ?bx])]"
  let ?all = "JObj [(''all'', JArr [?a1, ?bx])]"
  let ?all2 = "JObj [(''all'', JArr [?a2, ?bx])]"
  let ?c = "JObj [(''field'', JStr ''a''), (''equals'', JNum 1), (''additional'', ?bx)]"
  have a1: "matchesCondition demo_builtins ?ev ?a1 = Inr True"
    by (simp add: matchesCondition.simps check_defs)
  have a2: "matchesCondition demo_builtins ?ev ?a2 = Inr False"
    by (simp add: matchesCondition.simps check_defs)
  have bx: "matchesCondition demo_builtins ?ev ?bx = Inr True"
    by (simp add: matchesCondition.simps check_defs toLowerCase_def lower_char_def)
  have items: "js_get ?any ''any'' = JArr [?a2, ?bx]" "js_get ?all ''all'' = JArr [?a1, ?bx]"
    "js_get ?all ''any'' = JUndefined" "js_get ?all2 ''all'' = JArr [?a2, ?bx]"
    "js_get ?all2 ''any'' = JUndefined"
    by simp_all
  have "1 < length [?a2, ?bx] \<and> matchesCondition demo_builtins ?ev ([?a2, ?bx] ! 1) = Inr True
      \<and> (\<forall>j<1. matchesCondition demo_builtins ?ev ([?a2, ?bx] ! j) = Inr False)"
    using a2 bx by simp
  then have ex: "\<exists>i<length [?a2, ?bx]. matchesCondition demo_builtins ?ev ([?a2, ?bx] ! i) = Inr True
      \<and> (\<forall>j<i. matchesCondition demo_builtins ?ev ([?a2, ?bx] ! j) = Inr False)"
    by blast
  have 1: "matchesCondition demo_builtins ?ev ?any = Inr True"
    using node_matches_iff_checks_pass [of demo_builtins ?ev ?any] ex
    by (simp only: items is_array.simps array_items.simps truthy.simps if_True simp_thms)
  have 2: "matchesCondition demo_builtins ?ev ?all = Inr True"
    using node_matches_iff_checks_pass [of demo_builtins ?ev ?all] a1 bx
    by (simp only: items is_array.simps array_items.simps truthy.simps if_True if_False
        simp_thms list.set ball_simps insert_iff empty_iff)
  have 3: "matchesCondition demo_builtins ?ev ?all2 \<noteq> Inr True"
    using node_matches_iff_checks_pass [of demo_builtins ?ev ?all2] a2
    by (simp only: items is_array.simps array_items.simps truthy.simps if_True if_False
        simp_thms list.set ball_simps insert_iff empty_iff) auto
  have 4: "matchesCondition demo_builtins ?ev ?c = Inr True"
    using node_matches_iff_checks_pass [of demo_builtins ?ev ?c] bx
    by (simp add: check_defs)
  from 1 2 3 4 show ?thesis by blast
qed

text \<open>
  C9, as stated, fails: the field lookup is outside the \<open>try\<close> of the \<open>matches\<close>
  check. On the node \<open>{field: 5, matches: "("}\<close> the pattern does not compile, and
  the call throws a TypeError all the same, because the number 5 has no \<open>split\<close>
  method.
\<close>

theorem matcher_throws_on_non_string_field_counterexample:
  "RegExp_i demo_builtins ''('' = None
   \<and> matchesCondition demo_builtins (JObj [(''msg'', JStr ''login'')])
       (JObj [(''field'', JNum 5), (''matches'', JStr ''('')]) = Inl TypeError"
  by (simp add: matchesCondition.simps check_defs demo_builtins_def)

text \<open>
  The conversions of the \<open>contains\<close> check are not guarded either: with the field
  \<open>a\<close> holding \<open>{"toString": 1}\<close>, the node
  \<open>{field: "a", contains: "x", matches: "("}\<close> throws before the pattern is looked at.
\<close>

lemma matcher_throws_on_unprintable_field_value_example:
  "matchesCondition demo_builtins (JObj [(''a'', JObj [(''toString'', JNum 1)])])
     (JObj [(''field'', JStr ''a''), (''contains'', JStr ''x''), (''matches'', JStr ''('')])
   = Inl TypeError"
  by (simp add: matchesCondition.simps check_defs)

lemma includes_any_printable:
  "list_all printable cs \<Longrightarrow> \<exists>found. includes_any val cs = Inr found"
  by (induction cs) auto

lemma contains_fails_printable:
  "printable fv \<Longrightarrow> printable (js_get c ''contains'') \<Longrightarrow> \<exists>b. contains_fails c fv = Inr b"
  by (auto simp: contains_fails_def)

lemma contains_any_fails_printable:
  assumes "printable fv" and "list_all printable (array_items (js_get c ''contains_any''))"
  shows "\<exists>b. contains_any_fails c fv = Inr b"
proof -
  from includes_any_printable [OF assms(2)] obtain found where
    "includes_any (toLowerCase (js_to_string fv)) (array_items (js_get c ''contains_any''))
       = Inr found" by blast
  with assms(1) show ?thesis by (auto simp: contains_any_fails_def)
qed

lemma undefined_field_value_fails:
  assumes node: "\<not> is_array (js_get c ''any'')" "\<not> is_array (js_get c ''all'')"
    and fv: "getFieldValue B event (js_get c ''field'') = Inr JUndefined"
    and chk: "js_get c ''equals'' \<noteq> JUndefined \<or> js_get c ''contains'' \<noteq> JUndefined
           \<or> js_get c ''matches'' \<noteq> JUndefined"
  shows "matchesCondition B event c = Inr False"
proof -
  have ca: "contains_any_fails c JUndefined = Inr (is_array (js_get c ''contains_any''))"
    by (simp add: contains_any_fails_def)
  have co: "contains_fails c JUndefined = Inr (js_get c ''contains'' \<noteq> JUndefined)"
    by (simp add: contains_fails_def)
  have ma: "js_get c ''matches'' \<noteq> JUndefined \<Longrightarrow> matches_fails B c JUndefined"
    by (simp add: matches_fails_def split: option.splits)
  have eq: "js_get c ''equals'' \<noteq> JUndefined \<Longrightarrow> equals_fails c JUndefined"
    by (simp add: equals_fails_def strict_eq_undefined)
  show ?thesis
    using node fv chk ca co ma eq
    by (subst matchesCondition.simps) (auto split: bool.splits)
qed

text \<open>
  C9, amended, for a field-level node (no \<open>any\<close> or \<open>all\<close> list).
  \<^item> A \<open>matches\<close> pattern that does not compile, or cannot be converted to a
    pattern, makes the node a non-match without an exception, when the field path
    is a string that leads to a value in the event and that value and the operands
    of \<open>contains\<close> and \<open>contains_any\<close> have string forms, so that no step before
    the \<open>matches\<close> check throws.
  \<^item> When the node names no field, or the event is falsy, or the field path is a
    string that is absent from the event, a node with an \<open>equals\<close>, \<open>contains\<close>
    or \<open>matches\<close> check is a non-match, without an exception and without further
    conditions.
\<close>

theorem matcher_fails_closed:
  assumes node: "\<not> is_array (js_get c ''any'')" "\<not> is_array (js_get c ''all'')"
  shows "(js_get c ''matches'' \<noteq> JUndefined
          \<and> (\<not> printable (js_get c ''matches'')
               \<or> RegExp_i B (js_to_string (js_get c ''matches'')) = None)
          \<and> js_get c ''field'' = JStr path \<and> path \<noteq> [] \<and> truthy event
          \<and> field_at (split_on CHR ''.'' path) event = Some fv
          \<and> printable fv \<and> printable (js_get c ''contains'')
          \<and> list_all printable (array_items (js_get c ''contains_any''))
          \<longrightarrow> matchesCondition B event c = Inr False)
       \<and> ((\<not> truthy (js_get c ''field'') \<or> \<not> truthy event
             \<or> (js_get c ''field'' = JStr path \<and> path \<noteq> []
                  \<and> field_absent B (split_on CHR ''.'' path) event))
          \<and> (js_get c ''equals'' \<noteq> JUndefined \<or> js_get c ''contains'' \<noteq> JUndefined
               \<or> js_get c ''matches'' \<noteq> JUndefined)
          \<longrightarrow> matchesCondition B event c = Inr False)"
proof (intro conjI impI)
  assume a: "js_get c ''matches'' \<noteq> JUndefined
          \<and> (\<not> printable (js_get c ''matches'')
               \<or> RegExp_i B (js_to_string (js_get c ''matches'')) = None)
          \<and> js_get c ''field'' = JStr path \<and> path \<noteq> [] \<and> truthy event
          \<and> field_at (split_on CHR ''.'' path) event = Some fv
          \<and> printable fv \<and> printable (js_get c ''contains'')
          \<and> list_all printable (array_items (js_get c ''contains_any''))"
  then obtain b1 b2 where b: "contains_fails c fv = Inr b1" "contains_any_fails c fv = Inr b2"
    using contains_fails_printable [of fv c] contains_any_fails_printable [of fv c] by blast
  from a have m: "matches_fails B c fv"
    by (auto simp: matches_fails_def)
  from a have f: "getFieldValue B event (js_get c ''field'') = Inr fv"
    using present_field_value [of path event fv B] by simp
  show "matchesCondition B event c = Inr False"
    using node f b m by (subst matchesCondition.simps) (auto split: bool.splits)
next
  assume a: "(\<not> truthy (js_get c ''field'') \<or> \<not> truthy event
             \<or> (js_get c ''field'' = JStr path \<and> path \<noteq> []
                  \<and> field_absent B (split_on CHR ''.'' path) event))
          \<and> (js_get c ''equals'' \<noteq> JUndefined \<or> js_get c ''contains'' \<noteq> JUndefined
               \<or> js_get c ''matches'' \<noteq> JUndefined)"
  then have "getFieldValue B event (js_get c ''field'') = Inr JUndefined"
    using absent_field_value [of path B event] no_field_value [of "js_get c ''field''" event B]
    by auto
  with a show "matchesCondition B event c = Inr False"
    using undefined_field_value_fails [OF node] by blast
qed

theorem matcher_fails_closed_witness:
  "field_at (split_on CHR ''.'' ''msg'') (JObj [(''msg'', JStr ''login'')]) = Some (JStr ''login'')
   \<and> RegExp_i demo_builtins ''('' = None
   \<and> matchesCondition demo_builtins (JObj [(''msg'', JStr ''login'')])
     (JObj [(''field'', JStr ''msg''), (''matches'', JStr ''('')]) = Inr False
   \<and> field_absent demo_builtins (split_on CHR ''.'' ''parsed_data.user'')
       (JObj [(''msg'', JStr ''login'')])
   \<and> matchesCondition demo_builtins (JObj [(''msg'', JStr ''login'')])
     (JObj [(''field'', JStr ''parsed_data.user''), (''equals'', JStr ''root'')]) = Inr False
   \<and> matchesCondition demo_builtins (JObj [(''msg'', JStr ''login'')])
     (JObj [(''contains'', JStr ''root'')]) = Inr False"
proof -
  let ?ev = "JObj [(''msg'', JStr ''login'')]"
  let ?c1 = "JObj [(''field'', JStr ''msg''), (''matches'', JStr ''('')]"
  let ?c2 = "JObj [(''field'', JStr ''parsed_data.user''), (''equals'', JStr ''root'')]"
  let ?c3 = "JObj [(''contains'', JStr ''root'')]"
  have at: "field_at (split_on CHR ''.'' ''msg'') ?ev = Some (JStr ''login'')"
    by simp
  have re: "RegExp_i demo_builtins ''('' = None"
    by (simp add: demo_builtins_def)
  have ab: "field_absent demo_builtins (split_on CHR ''.'' ''parsed_data.user'') ?ev"
    by (simp add: demo_builtins_def)
  have 1: "matchesCondition demo_builtins ?ev ?c1 = Inr False"
    using matcher_fails_closed [where c = ?c1 and B = demo_builtins and event = ?ev
        and path = "''msg''" and fv = "JStr ''login''"] at re
    by (simp del: field_at.simps split_on.simps)
  have 2: "matchesCondition demo_builtins ?ev ?c2 = Inr False"
    using matcher_fails_closed [where c = ?c2 and B = demo_builtins and event = ?ev
        and path = "''parsed_data.user''"] ab
    by (simp del: field_absent.simps split_on.simps)
  have 3: "matchesCondition demo_builtins ?ev ?c3 = Inr False"
    using matcher_fails_closed [where c = ?c3 and B = demo_builtins and event = ?ev]
    by simp
  from at re ab 1 2 3 show ?thesis by blast
qed

subsection \<open>Threshold rules\<close>

lemma in_window_ok:
  "entry_ok B hi wms e \<Longrightarrow> now \<le> hi \<Longrightarrow> in_window B now (Some wms) e"
  by (auto simp: entry_ok_def in_window_def num_lt_def num_sub_def split: option.splits)

lemma filter_in_window_ok:
  "list_all (entry_ok B hi wms) es \<Longrightarrow> now \<le> hi \<Longrightarrow> filter (in_window B now (Some wms)) es = es"
  by (induction es) (auto simp: in_window_ok)

lemma good_entry_ok:
  "good_input B rule g lo hi wms (ticks, now, uuid, event) \<Longrightarrow> entry_ok B hi wms (entry_of event)"
  by (auto simp: entry_ok_def entry_of_def split: option.splits)

lemma good_input_facts:
  assumes "good_input B rule g lo hi wms (ticks, now, uuid, event)"
  shows "\<not> nullish event" "matchesCondition B event (conditions rule) = Inr True"
    "groupValue_of B event (js_get (conditions rule) ''group_by'') = Inr g"
    "lo \<le> now" "now \<le> hi" "list_all (\<lambda>t. lo \<le> t \<and> t \<le> hi) ticks"
  using assms by auto

text \<open>The timer leaves alone a bucket that was opened less than ten minutes ago.\<close>

lemma cleanup_keeps_bucket:
  assumes "bucket_ok B lo hi wms (thresholdState st k) c" and "t \<le> hi" and "hi - lo \<le> 600000"
  shows "thresholdState (cleanup t st) k = thresholdState st k"
  using assms by (auto simp: cleanup_def bucket_ok_def split: option.splits)

lemma cleanup_alerts_table [simp]: "alerts_table (cleanup t st) = alerts_table st"
  by (simp add: cleanup_def)

lemma fold_cleanup_alerts_table [simp]: "alerts_table (fold cleanup ticks st) = alerts_table st"
  by (induction ticks arbitrary: st) auto

lemma fold_cleanup_keeps_bucket:
  assumes "hi - lo \<le> 600000"
  shows "bucket_ok B lo hi wms (thresholdState st k) c \<Longrightarrow> list_all (\<lambda>t. lo \<le> t \<and> t \<le> hi) ticks
     \<Longrightarrow> thresholdState (fold cleanup ticks st) k = thresholdState st k"
proof (induction ticks arbitrary: st)
  case Nil
  then show ?case by simp
next
  case (Cons t ticks)
  from Cons.prems have t: "t \<le> hi" and rest: "list_all (\<lambda>t. lo \<le> t \<and> t \<le> hi) ticks" by auto
  have keep: "thresholdState (cleanup t st) k = thresholdState st k"
    using cleanup_keeps_bucket [OF Cons.prems(1) t assms] .
  with Cons.prems(1) have "bucket_ok B lo hi wms (thresholdState (cleanup t st) k) c" by simp
  from Cons.IH [OF this rest] keep show ?case by simp
qed

lemma to_number_printable: "to_number B v = Some n \<Longrightarrow> printable v"
  by (cases v) (auto split: if_splits)


lemma threshold_of_printable:
  "threshold_of B rule = Some T \<Longrightarrow> printable (js_or (js_get (conditions rule) ''threshold'') (JNum 5))"
  by (auto simp: threshold_of_def dest: to_number_printable)

lemma windowMs_of_printable:
  "windowMs_of B rule = Some wms
   \<Longrightarrow> printable (js_or (js_get (conditions rule) ''window_seconds'') (JNum 60))"
  by (auto simp: windowMs_of_def num_mul_def dest: to_number_printable split: option.splits)

lemma threshold_step:
  assumes good: "good_input B rule g lo hi wms (ticks, now, uuid, event)"
    and thr: "threshold_of B rule = Some (int T)"
    and win: "windowMs_of B rule = Some wms"
    and span: "hi - lo \<le> wms"
    and inv: "bucket_ok B lo hi wms (thresholdState st (stateKey_of rule g)) c"
  shows "processThresholdRule B now uuid event rule st =
     (let old = (case thresholdState st (stateKey_of rule g) of
                   None \<Rightarrow> fresh_state now | Some s \<Rightarrow> s);
          new = old\<lparr>count := int (Suc c), events := events old @ [entry_of event]\<rparr>
      in if T \<le> Suc c
         then createAlert uuid event rule (threshold_details rule (Suc c) g)
                (st\<lparr>thresholdState := (thresholdState st)(stateKey_of rule g \<mapsto> fresh_state now)\<rparr>)
         else (Inr None, st\<lparr>thresholdState := (thresholdState st)(stateKey_of rule g \<mapsto> new)\<rparr>))"
proof (cases "thresholdState st (stateKey_of rule g)")
  case None
  note g = good_input_facts [OF good]
  note pr = threshold_of_printable [OF thr] windowMs_of_printable [OF win]
  have e: "in_window B now (Some wms) (entry_of event)"
    using good_entry_ok [OF good] g(5) by (rule in_window_ok)
  from inv None have c: "c = 0" by (simp add: bucket_ok_def)
  show ?thesis
    using g(1,2,3) thr win None e c pr
    by (simp add: processThresholdRule_def threshold_of_def windowMs_of_def Let_def
        fresh_state_def num_ge_def threshold_details_def)
next
  case (Some s)
  note g = good_input_facts [OF good]
  note pr = threshold_of_printable [OF thr] windowMs_of_printable [OF win]
  from Some inv have s: "lo \<le> window_start s" "length (events s) = c"
    "list_all (entry_ok B hi wms) (events s)"
    by (simp_all add: bucket_ok_def)
  have keep: "\<not> num_gt (Some (now - window_start s)) (Some wms)"
    using s(1) g(5) span by (simp add: num_gt_def)
  have e: "in_window B now (Some wms) (entry_of event)"
    using good_entry_ok [OF good] g(5) by (rule in_window_ok)
  have f: "filter (in_window B now (Some wms)) (events s) = events s"
    using s(3) g(5) by (rule filter_in_window_ok)
  show ?thesis
    using g(1,2,3) thr win Some keep e f s(2) pr
    by (simp add: processThresholdRule_def threshold_of_def windowMs_of_def Let_def
        fresh_state_def num_ge_def threshold_details_def)
qed

lemma bucket_ok_after_quiet:
  assumes good: "good_input B rule g lo hi wms (ticks, now, uuid, event)"
    and inv: "bucket_ok B lo hi wms b c"
  shows "bucket_ok B lo hi wms
           (Some ((case b of None \<Rightarrow> fresh_state now | Some s \<Rightarrow> s)
                    \<lparr>count := int (Suc c),
                     events := events (case b of None \<Rightarrow> fresh_state now | Some s \<Rightarrow> s)
                                 @ [entry_of event]\<rparr>))
           (Suc c)"
  using inv good_entry_ok [OF good] good_input_facts(4) [OF good]
  by (cases b) (auto simp: bucket_ok_def fresh_state_def)

lemma feed_threshold_append:
  "feed_threshold B rule (xs @ ys) st =
     (case feed_threshold B rule xs st of
        (rs, st') \<Rightarrow>
          (case feed_threshold B rule ys st' of
             (rs', st'') \<Rightarrow> (rs @ rs', st'')))"
  by (induction xs arbitrary: st) (auto split: prod.splits)

lemma feed_threshold_single:
  "feed_threshold B rule [(ticks, now, uuid, event)] st =
     (case processThresholdRule B now uuid event rule (fold cleanup ticks st) of
        (r, st') \<Rightarrow> ([r], st'))"
  by (simp split: prod.splits)

lemma threshold_quiet:
  assumes thr: "threshold_of B rule = Some (int T)"
    and win: "windowMs_of B rule = Some wms"
    and span: "hi - lo \<le> wms" and span2: "hi - lo \<le> 600000"
  shows "list_all (good_input B rule g lo hi wms) inputs
     \<Longrightarrow> bucket_ok B lo hi wms (thresholdState st (stateKey_of rule g)) c
     \<Longrightarrow> c + length inputs < T
     \<Longrightarrow> \<exists>st'. feed_threshold B rule inputs st = (replicate (length inputs) (Inr None), st')
            \<and> bucket_ok B lo hi wms (thresholdState st' (stateKey_of rule g)) (c + length inputs)
            \<and> alerts_table st' = alerts_table st"
proof (induction inputs arbitrary: st c)
  case Nil
  then show ?case by simp
next
  case (Cons i inputs)
  obtain ticks now uuid event where i: "i = (ticks, now, uuid, event)" by (cases i) auto
  from Cons.prems(1) i have good: "good_input B rule g lo hi wms (ticks, now, uuid, event)"
    and rest: "list_all (good_input B rule g lo hi wms) inputs" by auto
  let ?k = "stateKey_of rule g"
  let ?st0 = "fold cleanup ticks st"
  have same: "thresholdState ?st0 ?k = thresholdState st ?k"
    using fold_cleanup_keeps_bucket [OF span2 Cons.prems(2) good_input_facts(6) [OF good]] .
  then have inv0: "bucket_ok B lo hi wms (thresholdState ?st0 ?k) c"
    using Cons.prems(2) by simp
  let ?old = "case thresholdState ?st0 ?k of None \<Rightarrow> fresh_state now | Some s \<Rightarrow> s"
  let ?new = "?old\<lparr>count := int (Suc c), events := events ?old @ [entry_of event]\<rparr>"
  let ?st1 = "?st0\<lparr>thresholdState := (thresholdState ?st0)(?k \<mapsto> ?new)\<rparr>"
  from Cons.prems(3) have noalert: "\<not> T \<le> Suc c" by simp
  have step: "processThresholdRule B now uuid event rule ?st0 = (Inr None, ?st1)"
    using threshold_step [OF good thr win span inv0] noalert
    by (simp add: Let_def)
  have inv1: "bucket_ok B lo hi wms (thresholdState ?st1 ?k) (Suc c)"
    using bucket_ok_after_quiet [OF good inv0] by simp
  from Cons.prems(3) have "Suc c + length inputs < T" by simp
  from Cons.IH [OF rest inv1 this] obtain st' where
    st': "feed_threshold B rule inputs ?st1 = (replicate (length inputs) (Inr None), st')"
      "bucket_ok B lo hi wms (thresholdState st' ?k) (Suc c + length inputs)"
      "alerts_table st' = alerts_table ?st1"
    by blast
  show ?case
    using step st' i by simp
qed

lemma threshold_fire:
  assumes good: "good_input B rule g lo hi wms (ticks, now, uuid, event)"
    and thr: "threshold_of B rule = Some (int T)"
    and win: "windowMs_of B rule = Some wms"
    and span: "hi - lo \<le> wms" and span2: "hi - lo \<le> 600000"
    and inv: "bucket_ok B lo hi wms (thresholdState st (stateKey_of rule g)) c"
    and T: "Suc c = T"
  shows "\<exists>a st'. feed_threshold B rule [(ticks, now, uuid, event)] st = ([Inr (Some a)], st')
       \<and> alert_description a = js_to_string (rule_description rule) @ [CHR 0x0A, CHR 0x0A]
             @ ''Details: '' @ threshold_details rule T g
       \<and> alert_event_id a = js_get event ''id'' \<and> alert_rule_id a = rule_id rule
       \<and> alerts_table st' = alerts_table st @ [a]
       \<and> thresholdState st' (stateKey_of rule g) = Some (fresh_state now)"
proof -
  let ?k = "stateKey_of rule g"
  let ?st0 = "fold cleanup ticks st"
  have same: "thresholdState ?st0 ?k = thresholdState st ?k"
    using fold_cleanup_keeps_bucket [OF span2 inv good_input_facts(6) [OF good]] .
  then have inv0: "bucket_ok B lo hi wms (thresholdState ?st0 ?k) c"
    using inv by simp
  show ?thesis
    using threshold_step [OF good thr win span inv0] T good_input_facts(1) [OF good]
    by (simp add: Let_def createAlert_def del: good_input.simps)
qed

lemma bucket_ok_fresh:
  "lo \<le> now \<Longrightarrow> bucket_ok B lo hi wms (Some (fresh_state now)) 0"
  by (simp add: bucket_ok_def fresh_state_def)

lemma threshold_round:
  assumes thr: "threshold_of B rule = Some (int T)"
    and win: "windowMs_of B rule = Some wms"
    and span: "hi - lo \<le> wms" and span2: "hi - lo \<le> 600000"
    and pre: "list_all (good_input B rule g lo hi wms) pre"
    and x: "good_input B rule g lo hi wms (ticks, now, uuid, event)"
    and post: "list_all (good_input B rule g lo hi wms) post"
    and inv: "bucket_ok B lo hi wms (thresholdState st (stateKey_of rule g)) c"
    and c: "Suc (c + length pre) = T"
    and m: "length post < T"
  shows "\<exists>a st1 st2.
      feed_threshold B rule (pre @ [(ticks, now, uuid, event)]) st
        = (replicate (length pre) (Inr None) @ [Inr (Some a)], st1)
    \<and> feed_threshold B rule post st1 = (replicate (length post) (Inr None), st2)
    \<and> alert_description a = js_to_string (rule_description rule) @ [CHR 0x0A, CHR 0x0A]
             @ ''Details: '' @ threshold_details rule T g
    \<and> alert_event_id a = js_get event ''id''
    \<and> alerts_table st1 = alerts_table st @ [a]
    \<and> thresholdState st1 (stateKey_of rule g) = Some (fresh_state now)
    \<and> bucket_ok B lo hi wms (thresholdState st2 (stateKey_of rule g)) (length post)
    \<and> alerts_table st2 = alerts_table st1"
proof -
  let ?k = "stateKey_of rule g"
  from c have "c + length pre < T" by simp
  from threshold_quiet [OF thr win span span2 pre inv this] obtain st0 where
    st0: "feed_threshold B rule pre st = (replicate (length pre) (Inr None), st0)"
      "bucket_ok B lo hi wms (thresholdState st0 ?k) (c + length pre)"
      "alerts_table st0 = alerts_table st"
    by blast
  from threshold_fire [OF x thr win span span2 st0(2) c] obtain a st1 where
    st1: "feed_threshold B rule [(ticks, now, uuid, event)] st0 = ([Inr (Some a)], st1)"
      "alert_description a = js_to_string (rule_description rule) @ [CHR 0x0A, CHR 0x0A]
             @ ''Details: '' @ threshold_details rule T g"
      "alert_event_id a = js_get event ''id''"
      "alerts_table st1 = alerts_table st0 @ [a]"
      "thresholdState st1 ?k = Some (fresh_state now)"
    by blast
  have "lo \<le> now" using good_input_facts(4) [OF x] .
  then have inv1: "bucket_ok B lo hi wms (thresholdState st1 ?k) 0"
    using st1(5) by (simp add: bucket_ok_fresh)
  from m have "0 + length post < T" by simp
  from threshold_quiet [OF thr win span span2 post inv1 this] obtain st2 where
    st2: "feed_threshold B rule post st1 = (replicate (length post) (Inr None), st2)"
      "bucket_ok B lo hi wms (thresholdState st2 ?k) (0 + length post)"
      "alerts_table st2 = alerts_table st1"
    by blast
  have "feed_threshold B rule (pre @ [(ticks, now, uuid, event)]) st
        = (replicate (length pre) (Inr None) @ [Inr (Some a)], st1)"
    by (simp only: feed_threshold_append [of B rule pre "[(ticks, now, uuid, event)]" st]
        st0(1) st1(1) prod.case)
  with st1 st2 st0(3) show ?thesis by auto
qed

text \<open>
  C1, amended: for a threshold rule with effective threshold \<open>T \<ge> 2\<close> and window
  \<open>wms\<close> milliseconds, and a stream of events that match the rule, share the group
  value \<open>g\<close>, carry timestamps inside the window, and are processed (with any runs
  of the clean-up timer in between) within one window span of at most ten minutes,
  starting from no state for the group: the first \<open>T - 1\<close> events give no alert and
  the \<open>T\<close>-th gives exactly one, with detail
  "Threshold exceeded: T events in Ws (group: G)"; the group's state is then the empty
  window opened at that moment; the next matching event gives no alert; and \<open>T\<close>
  further matching events give exactly one more alert.
\<close>

theorem threshold_fires_then_resets:
  assumes thr: "threshold_of B rule = Some (int T)" and T2: "2 \<le> T"
    and win: "windowMs_of B rule = Some wms"
    and span: "hi - lo \<le> wms" and span2: "hi - lo \<le> 10 * 60 * 1000"
    and len_first: "length first = T - 1"
    and first: "list_all (good_input B rule g lo hi wms) first"
    and tth: "good_input B rule g lo hi wms (ticksT, nowT, uuidT, evT)"
    and nxt: "good_input B rule g lo hi wms (ticksN, nowN, uuidN, evN)"
    and len_further: "length further = T"
    and further: "list_all (good_input B rule g lo hi wms) further"
    and init: "thresholdState st (stateKey_of rule g) = None"
  shows "\<exists>a stT stN.
      feed_threshold B rule (first @ [(ticksT, nowT, uuidT, evT)]) st
        = (replicate (T - 1) (Inr None) @ [Inr (Some a)], stT)
    \<and> alert_description a = js_to_string (rule_description rule) @ [CHR 0x0A, CHR 0x0A]
          @ ''Details: Threshold exceeded: '' @ show_int (int T) @ '' events in ''
          @ js_to_string (js_get (conditions rule) ''window_seconds'')
          @ ''s (group: '' @ js_to_string g @ '')''
    \<and> alert_event_id a = js_get evT ''id''
    \<and> alerts_table stT = alerts_table st @ [a]
    \<and> thresholdState stT (stateKey_of rule g)
          = Some \<lparr>count = 0, window_start = nowT, events = []\<rparr>
    \<and> feed_threshold B rule [(ticksN, nowN, uuidN, evN)] stT = ([Inr None], stN)
    \<and> alerts_table stN = alerts_table stT
    \<and> length (filter is_alert (fst (feed_threshold B rule further stN))) = 1"
proof -
  let ?k = "stateKey_of rule g"
  have span2': "hi - lo \<le> 600000" using span2 by simp
  have inv0: "bucket_ok B lo hi wms (thresholdState st ?k) 0"
    using init by (simp add: bucket_ok_def)
  have c0: "Suc (0 + length first) = T" using len_first T2 by simp
  have one: "list_all (good_input B rule g lo hi wms) [(ticksN, nowN, uuidN, evN)]"
    using nxt by simp
  have "length [(ticksN, nowN, uuidN, evN)] < T" using T2 by simp
  from threshold_round [OF thr win span span2' first tth one inv0 c0 this]
  obtain a stT stN where
    A: "feed_threshold B rule (first @ [(ticksT, nowT, uuidT, evT)]) st
          = (replicate (length first) (Inr None) @ [Inr (Some a)], stT)"
      "feed_threshold B rule [(ticksN, nowN, uuidN, evN)] stT
          = (replicate (length [(ticksN, nowN, uuidN, evN)]) (Inr None), stN)"
      "alert_description a = js_to_string (rule_description rule) @ [CHR 0x0A, CHR 0x0A]
             @ ''Details: '' @ threshold_details rule T g"
      "alert_event_id a = js_get evT ''id''"
      "alerts_table stT = alerts_table st @ [a]"
      "thresholdState stT ?k = Some (fresh_state nowT)"
      "bucket_ok B lo hi wms (thresholdState stN ?k) (length [(ticksN, nowN, uuidN, evN)])"
      "alerts_table stN = alerts_table stT"
    by blast
  from A(2) have stepN: "feed_threshold B rule [(ticksN, nowN, uuidN, evN)] stT = ([Inr None], stN)"
    by simp
  from A(7) have invN: "bucket_ok B lo hi wms (thresholdState stN ?k) 1" by simp
  from len_further T2 obtain ys y where f1: "further = ys @ [y]"
    by (cases further rule: rev_cases) auto
  with len_further T2 obtain pre x where f2: "ys = pre @ [x]"
    by (cases ys rule: rev_cases) auto
  obtain ticksx nowx uuidx evx where x: "x = (ticksx, nowx, uuidx, evx)" by (cases x) auto
  from further f1 f2 x have
    gpre: "list_all (good_input B rule g lo hi wms) pre"
    and gx: "good_input B rule g lo hi wms (ticksx, nowx, uuidx, evx)"
    and gy: "list_all (good_input B rule g lo hi wms) [y]"
    by auto
  from len_further f1 f2 have "Suc (1 + length pre) = T" by simp
  moreover have "length [y] < T" using T2 by simp
  ultimately obtain b st1 st2 where
    F: "feed_threshold B rule (pre @ [(ticksx, nowx, uuidx, evx)]) stN
          = (replicate (length pre) (Inr None) @ [Inr (Some b)], st1)"
       "feed_threshold B rule [y] st1 = (replicate (length [y]) (Inr None), st2)"
    using threshold_round [OF thr win span span2' gpre gx gy invN] by blast
  have "feed_threshold B rule ((pre @ [(ticksx, nowx, uuidx, evx)]) @ [y]) stN
      = ((replicate (length pre) (Inr None) @ [Inr (Some b)]) @ [Inr None], st2)"
    by (simp only: feed_threshold_append [of B rule "pre @ [(ticksx, nowx, uuidx, evx)]" "[y]" stN]
        F prod.case) simp
  moreover have "further = (pre @ [(ticksx, nowx, uuidx, evx)]) @ [y]" using f1 f2 x by simp
  ultimately have "fst (feed_threshold B rule further stN)
      = (replicate (length pre) (Inr None) @ [Inr (Some b)]) @ [Inr None]"
    by (simp only: fst_conv)
  then have cnt: "length (filter is_alert (fst (feed_threshold B rule further stN))) = 1"
    by simp
  from A(1,3,4,5,6,8) len_first stepN cnt show ?thesis
    by (auto simp: threshold_details_def fresh_state_def)
qed

lemma demo_matches:
  "matchesCondition demo_builtins (demo_failure_event i t) (conditions (demo_threshold_rule n w)) = Inr True"
  by (simp add: demo_threshold_rule_def demo_login_event_def matchesCondition.simps check_defs)

lemma demo_good:
  "lo \<le> now \<Longrightarrow> now \<le> hi \<Longrightarrow> hi - t < wms \<Longrightarrow> list_all (\<lambda>t. lo \<le> t \<and> t \<le> hi) ticks \<Longrightarrow>
   good_input demo_builtins (demo_threshold_rule n w) (JStr ''10.0.0.9'') lo hi wms
     (ticks, now, uuid, demo_failure_event i t)"
  using demo_matches [of i t n w]
  by (simp add: demo_threshold_rule_def demo_login_event_def demo_builtins_def
      groupValue_of_def check_defs nullish_def)

lemma demo_threshold_rule_keys:
  "js_get (conditions (demo_threshold_rule n w)) ''threshold'' = JNum n"
  "js_get (conditions (demo_threshold_rule n w)) ''window_seconds'' = JNum w"
  "js_get (conditions (demo_threshold_rule n w)) ''group_by'' = JStr ''parsed_data.source_ip''"
  by (simp_all add: demo_threshold_rule_def)

lemma demo_threshold_rule_facts:
  "threshold_of demo_builtins (demo_threshold_rule n w) = Some (if n = 0 then 5 else n)"
  "w \<noteq> 0 \<Longrightarrow> windowMs_of demo_builtins (demo_threshold_rule n w) = Some (w * 1000)"
  "stateKey_of (demo_threshold_rule n w) (JStr ''10.0.0.9'') = ''brute-force-ssh:10.0.0.9''"
  "js_get (conditions (demo_threshold_rule n w)) ''window_seconds'' = JNum w"
  "rule_description (demo_threshold_rule n w) = JStr ''Detects failed SSH logins from the same IP''"
  by (simp_all add: threshold_of_def windowMs_of_def stateKey_of_def demo_threshold_rule_def
      js_or_def num_mul_def)

text \<open>
  C1, as stated, fails for threshold 1: the state is reset on every alert and the very
  next matching event reaches the threshold again, so the \<open>(T+1)\<close>-th event alerts.
\<close>

theorem threshold_one_alerts_every_event_counterexample:
  "map is_alert (fst (feed_threshold demo_builtins (demo_threshold_rule 1 60)
      [([], 1000, ''u1'', demo_failure_event ''e1'' 1000),
       ([], 1001, ''u2'', demo_failure_event ''e2'' 1001)] empty_engine)) = [True, True]"
proof -
  let ?r = "demo_threshold_rule 1 60"
  let ?g = "JStr ''10.0.0.9''"
  have thr: "threshold_of demo_builtins ?r = Some (int 1)"
    by (simp add: demo_threshold_rule_facts)
  have win: "windowMs_of demo_builtins ?r = Some 60000"
    by (simp add: demo_threshold_rule_facts)
  have span: "(1001::int) - 1000 \<le> 60000" "(1001::int) - 1000 \<le> 600000" by simp_all
  have g1: "list_all (good_input demo_builtins ?r ?g 1000 1001 60000)
      [([], 1000, ''u1'', demo_failure_event ''e1'' 1000)]"
    by (simp add: demo_good del: good_input.simps)
  have g2: "good_input demo_builtins ?r ?g 1000 1001 60000
      ([], 1000, ''u1'', demo_failure_event ''e1'' 1000)"
    by (rule demo_good) simp_all
  have g3: "good_input demo_builtins ?r ?g 1000 1001 60000
      ([], 1001, ''u2'', demo_failure_event ''e2'' 1001)"
    by (rule demo_good) simp_all
  have inv0: "bucket_ok demo_builtins 1000 1001 60000
      (thresholdState empty_engine (stateKey_of ?r ?g)) 0"
    by (simp add: bucket_ok_def empty_engine_def)
  from threshold_fire [OF g2 thr win span inv0] obtain a1 st1 where
    s1: "feed_threshold demo_builtins ?r [([], 1000, ''u1'', demo_failure_event ''e1'' 1000)]
           empty_engine = ([Inr (Some a1)], st1)"
    and b1: "thresholdState st1 (stateKey_of ?r ?g) = Some (fresh_state 1000)"
    by auto
  have inv1: "bucket_ok demo_builtins 1000 1001 60000
      (thresholdState st1 (stateKey_of ?r ?g)) 0"
    using b1 by (simp add: bucket_ok_fresh)
  from threshold_fire [OF g3 thr win span inv1] obtain a2 st2 where
    s2: "feed_threshold demo_builtins ?r [([], 1001, ''u2'', demo_failure_event ''e2'' 1001)]
           st1 = ([Inr (Some a2)], st2)"
    by auto
  have "feed_threshold demo_builtins ?r
      ([([], 1000, ''u1'', demo_failure_event ''e1'' 1000)]
        @ [([], 1001, ''u2'', demo_failure_event ''e2'' 1001)]) empty_engine
      = ([Inr (Some a1)] @ [Inr (Some a2)], st2)"
    by (simp only: feed_threshold_append [of demo_builtins ?r
          "[([], 1000, ''u1'', demo_failure_event ''e1'' 1000)]"
          "[([], 1001, ''u2'', demo_failure_event ''e2'' 1001)]" empty_engine] s1 s2 prod.case)
  then show ?thesis by simp
qed

theorem threshold_fires_then_resets_witness:
  "\<exists>a stT stN.
      feed_threshold demo_builtins (demo_threshold_rule 2 60)
        [([], 1000, ''u1'', demo_failure_event ''e1'' 1000),
         ([1500], 2000, ''u2'', demo_failure_event ''e2'' 2000)] empty_engine
        = ([Inr None, Inr (Some a)], stT)
    \<and> alert_description a = ''Detects failed SSH logins from the same IP'' @ [CHR 0x0A, CHR 0x0A]
          @ ''Details: Threshold exceeded: 2 events in 60s (group: 10.0.0.9)''
    \<and> alert_event_id a = JStr ''e2''
    \<and> alerts_table stT = [a]
    \<and> thresholdState stT ''brute-force-ssh:10.0.0.9''
          = Some \<lparr>count = 0, window_start = 2000, events = []\<rparr>
    \<and> feed_threshold demo_builtins (demo_threshold_rule 2 60)
          [([], 3000, ''u3'', demo_failure_event ''e3'' 3000)] stT = ([Inr None], stN)
    \<and> alerts_table stN = alerts_table stT
    \<and> length (filter is_alert (fst (feed_threshold demo_builtins (demo_threshold_rule 2 60)
          [([], 4000, ''u4'', demo_failure_event ''e4'' 4000),
           ([4500], 5000, ''u5'', demo_failure_event ''e5'' 5000)] stN))) = 1"
proof -
  let ?r = "demo_threshold_rule 2 60"
  let ?g = "JStr ''10.0.0.9''"
  have thr: "threshold_of demo_builtins ?r = Some (int 2)"
    by (simp add: demo_threshold_rule_facts)
  have win: "windowMs_of demo_builtins ?r = Some 60000"
    by (simp add: demo_threshold_rule_facts)
  have nums: "show_int 2 = ''2''" "show_int 60 = ''60''"
    by (simp_all add: show_int_def show_nat.simps digit_char_def)
  have init: "thresholdState empty_engine (stateKey_of ?r ?g) = None"
    by (simp add: empty_engine_def)
  have tbl: "alerts_table empty_engine = []"
    by (simp add: empty_engine_def)
  have id2: "js_get (demo_failure_event ''e2'' 2000) ''id'' = JStr ''e2''"
    by (simp add: demo_login_event_def)
  show ?thesis
    using threshold_fires_then_resets [of demo_builtins ?r 2 60000 5000 1000
        "[([], 1000, ''u1'', demo_failure_event ''e1'' 1000)]" ?g
        "[1500]" 2000 "''u2''" "demo_failure_event ''e2'' 2000"
        "[]" 3000 "''u3''" "demo_failure_event ''e3'' 3000"
        "[([], 4000, ''u4'', demo_failure_event ''e4'' 4000),
          ([4500], 5000, ''u5'', demo_failure_event ''e5'' 5000)]" empty_engine,
        OF thr _ win _ _ _ _ _ _ _ _ init]
    by (simp add: demo_good demo_threshold_rule_facts nums tbl id2
        del: good_input.simps feed_threshold.simps)
qed

text \<open>
  The ten-minute bound matters for rules with a longer window: under a one-hour
  window and threshold 2, with a run of the timer between two matching events 661
  seconds apart, the second event finds no state and raises no alert.
\<close>

lemma cleanup_drops_long_window_example:
  "map is_alert (fst (feed_threshold demo_builtins (demo_threshold_rule 2 3600)
      [([], 0, ''u1'', demo_failure_event ''e1'' 0),
       ([660000], 661000, ''u2'', demo_failure_event ''e2'' 661000)] empty_engine))
     = [False, False]"
  by (simp add: processThresholdRule_def demo_matches demo_threshold_rule_keys
      demo_threshold_rule_facts demo_login_group demo_login_entry demo_login_not_nullish
      Let_def js_or_def num_mul_def num_gt_def num_ge_def
      fresh_state_def cleanup_def empty_engine_def)

subsection \<open>Correlation rules and grouping\<close>







































subsection \<open>Syslog parser\<close>

lemmas regex_defs = match_anchored_def rep_counts_def cap_val_def cap_str_def at_end_def
  anywhere_def is_digit_def is_word_char_def is_space_char_def is_line_terminator_def

lemma bsd_sample_match:
  "\<exists>m. match_anchored SYSLOG_BSD_REGEX
     ''<13>Jan 18 10:30:45 web-server-01 sshd[1234]: Failed password for root from 192.168.1.100 port 22 ssh2''
     = Some m
   \<and> cap_val m 1 = JStr ''13'' \<and> cap_str m 2 = ''Jan 18 10:30:45''
   \<and> cap_val m 3 = JStr ''web-server-01'' \<and> cap_str m 4 = ''sshd''
   \<and> cap_val m 5 = JStr ''1234''
   \<and> cap_str m 6 = ''Failed password for root from 192.168.1.100 port 22 ssh2''"
  by (simp add: SYSLOG_BSD_REGEX_def regex_defs)

lemma timestamp_Jan_18:
  "\<exists>ts. parseTimestamp E ''Jan 18 10:30:45'' = Inr ts"
  by (simp add: parseTimestamp_def TIMESTAMP_REGEX_def regex_defs MONTHS_def parseInt_def Let_def)

lemma parsePriority_13: "parsePriority (JStr ''13'') = (1, 5)"
  by (simp add: parsePriority_def parseInt_def is_digit_def is_space_char_def digit_val_def
      js_rem_def Let_def)

lemma parsePriority_0: "parsePriority (JStr ''0'') = (1, 5)"
  by (simp add: parsePriority_def parseInt_def is_digit_def is_space_char_def digit_val_def
      js_rem_def Let_def)

lemma classifyEvent_sshd: "classifyEvent ''sshd'' msg = ''authentication''"
  by (simp add: classifyEvent_def toLowerCase_def lower_char_def Let_def)

lemma syslog_sample_line_fields:
  "\<exists>ts. syslog_parse E (JStr ''<13>Jan 18 10:30:45 web-server-01 sshd[1234]: Failed password for root from 192.168.1.100 port 22 ssh2'') metadata
     = Inr (JObj
         [(''timestamp'', JStr ts),
          (''source'', JStr ''syslog''),
          (''event_type'', JStr ''authentication''),
          (''severity'', JStr ''info''),
          (''hostname'', JStr ''web-server-01''),
          (''description'', JStr ''[sshd] Failed password for root from 192.168.1.100 port 22 ssh2''),
          (''raw_log'', JStr ''<13>Jan 18 10:30:45 web-server-01 sshd[1234]: Failed password for root from 192.168.1.100 port 22 ssh2''),
          (''parsed_data'', JObj
            [(''format'', JStr ''bsd''),
             (''priority'', JNum 13),
             (''facility'', JNum 1),
             (''syslog_severity'', JNum 5),
             (''program'', JStr ''sshd''),
             (''pid'', JNum 1234),
             (''message'', JStr ''Failed password for root from 192.168.1.100 port 22 ssh2'')])])"
proof -
  from bsd_sample_match obtain m where m:
    "match_anchored SYSLOG_BSD_REGEX
     ''<13>Jan 18 10:30:45 web-server-01 sshd[1234]: Failed password for root from 192.168.1.100 port 22 ssh2''
     = Some m"
    "cap_val m 1 = JStr ''13''" "cap_str m 2 = ''Jan 18 10:30:45''"
    "cap_val m 3 = JStr ''web-server-01''" "cap_str m 4 = ''sshd''"
    "cap_val m 5 = JStr ''1234''"
    "cap_str m 6 = ''Failed password for root from 192.168.1.100 port 22 ssh2''"
    by blast
  from timestamp_Jan_18 obtain ts where ts: "parseTimestamp E ''Jan 18 10:30:45'' = Inr ts"
    by blast
  have n: "parseInt (JStr ''13'') = Some 13" "parseInt (JStr ''1234'') = Some 1234"
    by (simp_all add: parseInt_def is_digit_def is_space_char_def digit_val_def Let_def)
  show ?thesis
    by (simp add: syslog_parse_def m ts n parsePriority_13 classifyEvent_sshd
        mapSeverity_def num_val_def js_or_def Let_def del: One_nat_def)
qed

text \<open>
  C5, as stated, fails on the severity: priority 13 has syslog severity 5 (notice),
  and \<open>mapSeverity\<close> sends every severity above 4 to \<open>info\<close>, not to \<open>warning\<close>.
\<close>

theorem syslog_sample_line_severity_counterexample:
  "event_field (syslog_parse demo_parser_env (JStr ''<13>Jan 18 10:30:45 web-server-01 sshd[1234]: Failed password for root from 192.168.1.100 port 22 ssh2'') JUndefined) ''severity''
     = JStr ''info''
   \<and> event_field (syslog_parse demo_parser_env (JStr ''<13>Jan 18 10:30:45 web-server-01 sshd[1234]: Failed password for root from 192.168.1.100 port 22 ssh2'') JUndefined) ''severity''
     \<noteq> JStr ''warning''"
  using syslog_sample_line_fields [of demo_parser_env JUndefined]
  by (auto simp: event_field_def)

text \<open>
  C5, amended: the syslog parser alone, on the line
  \<open><13>Jan 18 10:30:45 web-server-01 sshd[1234]: Failed password for root from 192.168.1.100 port 22 ssh2\<close>,
  returns an event with event type \<open>authentication\<close> (program \<open>sshd\<close>), severity
  \<open>info\<close> (13 mod 8 = 5, above 4) and hostname \<open>web-server-01\<close>, whatever the clock
  and the metadata.
\<close>

theorem syslog_sample_line_is_info:
  "(\<exists>ev. syslog_parse E (JStr ''<13>Jan 18 10:30:45 web-server-01 sshd[1234]: Failed password for root from 192.168.1.100 port 22 ssh2'') metadata = Inr ev)
   \<and> event_field (syslog_parse E (JStr ''<13>Jan 18 10:30:45 web-server-01 sshd[1234]: Failed password for root from 192.168.1.100 port 22 ssh2'') metadata) ''event_type''
       = JStr ''authentication''
   \<and> event_field (syslog_parse E (JStr ''<13>Jan 18 10:30:45 web-server-01 sshd[1234]: Failed password for root from 192.168.1.100 port 22 ssh2'') metadata) ''severity''
       = JStr ''info''
   \<and> event_field (syslog_parse E (JStr ''<13>Jan 18 10:30:45 web-server-01 sshd[1234]: Failed password for root from 192.168.1.100 port 22 ssh2'') metadata) ''hostname''
       = JStr ''web-server-01''
   \<and> mapSeverity (13 mod 8) = ''info''"
  using syslog_sample_line_fields [of E metadata]
  by (auto simp: event_field_def mapSeverity_def)

lemma parsePriority_positive:
  "parseInt priority = Some n \<Longrightarrow> 0 < n \<Longrightarrow> parsePriority priority = (n div 8, n mod 8)"
  by (simp add: parsePriority_def js_rem_def)

lemma bsd_priority_zero_match:
  "\<exists>m. match_anchored SYSLOG_BSD_REGEX ''<0>Jan 18 10:30:45 host kernel: panic'' = Some m
   \<and> cap_val m 1 = JStr ''0'' \<and> cap_str m 2 = ''Jan 18 10:30:45''
   \<and> cap_val m 3 = JStr ''host'' \<and> cap_str m 4 = ''kernel''
   \<and> cap_val m 5 = JUndefined \<and> cap_str m 6 = ''panic''"
  by (simp add: SYSLOG_BSD_REGEX_def regex_defs)

text \<open>
  C6 at priority 0: \<open>parseInt(priority) || 13\<close> takes the parsed 0 for a missing
  priority, so the line \<open><0>Jan 18 10:30:45 host kernel: panic\<close> is decoded as
  priority 13: facility 1, syslog severity 5, severity \<open>info\<close>, and the recorded
  priority is \<open>null\<close>. The claim asks for facility 0, syslog severity 0 and
  \<open>critical\<close>, which is what \<open>mapSeverity\<close> gives for severity 0. For every
  positive priority the decoding is the claimed one (lemma \<open>parsePriority_positive\<close>).
\<close>

theorem syslog_priority_zero_decodes_as_13:
  "event_field (syslog_parse E (JStr ''<0>Jan 18 10:30:45 host kernel: panic'') metadata)
       ''severity'' = JStr ''info''
   \<and> js_get (event_field (syslog_parse E (JStr ''<0>Jan 18 10:30:45 host kernel: panic'') metadata)
       ''parsed_data'') ''facility'' = JNum 1
   \<and> js_get (event_field (syslog_parse E (JStr ''<0>Jan 18 10:30:45 host kernel: panic'') metadata)
       ''parsed_data'') ''syslog_severity'' = JNum 5
   \<and> js_get (event_field (syslog_parse E (JStr ''<0>Jan 18 10:30:45 host kernel: panic'') metadata)
       ''parsed_data'') ''priority'' = JNull
   \<and> mapSeverity (0 mod 8) = ''critical''"
proof -
  from bsd_priority_zero_match obtain m where m:
    "match_anchored SYSLOG_BSD_REGEX ''<0>Jan 18 10:30:45 host kernel: panic'' = Some m"
    "cap_val m 1 = JStr ''0''" "cap_str m 2 = ''Jan 18 10:30:45''"
    "cap_val m 3 = JStr ''host''" "cap_str m 4 = ''kernel''"
    "cap_val m 5 = JUndefined" "cap_str m 6 = ''panic''"
    by blast
  from timestamp_Jan_18 obtain ts where ts: "parseTimestamp E ''Jan 18 10:30:45'' = Inr ts"
    by blast
  have n: "parseInt (JStr ''0'') = Some 0"
    by (simp add: parseInt_def is_digit_def is_space_char_def digit_val_def Let_def)
  show ?thesis
    by (simp add: syslog_parse_def event_field_def m ts n parsePriority_0
        mapSeverity_def num_val_def js_or_def Let_def del: One_nat_def)
qed

lemma bsd_unknown_month_match:
  "\<exists>m. match_anchored SYSLOG_BSD_REGEX ''abc 1 00:00:00 h p: m'' = Some m
   \<and> cap_str m 2 = ''abc 1 00:00:00''"
  by (simp add: SYSLOG_BSD_REGEX_def regex_defs)

lemma timestamp_unknown_month:
  "parseTimestamp E ''abc 1 00:00:00'' = Inl RangeError"
  by (simp add: parseTimestamp_def TIMESTAMP_REGEX_def regex_defs MONTHS_def parseInt_def Let_def)

text \<open>
  C7 on two inputs. A BSD-shaped line whose month is not a month name gives an
  invalid date, and \<open>toISOString()\<close> throws a RangeError out of the syslog parser.
  The string \<open>null\<close> is valid JSON, so the fallback of the Windows parser is not
  taken; it decodes to \<open>null\<close>, and reading \<open>event.Id\<close> throws a TypeError.
\<close>

theorem parsers_throw_on_some_inputs:
  "syslog_parse E (JStr ''abc 1 00:00:00 h p: m'') metadata = Inl RangeError
   \<and> (JSON_parse E ''null'' = Some JNull
        \<longrightarrow> windows_parse B E (JStr ''null'') metadata = Inl TypeError)"
proof -
  from bsd_unknown_month_match obtain m where m:
    "match_anchored SYSLOG_BSD_REGEX ''abc 1 00:00:00 h p: m'' = Some m"
    "cap_str m 2 = ''abc 1 00:00:00''"
    by blast
  have 1: "syslog_parse E (JStr ''abc 1 00:00:00 h p: m'') metadata = Inl RangeError"
    by (simp add: syslog_parse_def m timestamp_unknown_month Let_def del: One_nat_def)
  have 2: "JSON_parse E ''null'' = Some JNull
        \<longrightarrow> windows_parse B E (JStr ''null'') metadata = Inl TypeError"
    by (simp add: windows_parse_def parseWindowsEvent_def nullish_def)
  from 1 2 show ?thesis by blast
qed

theorem parsers_throw_on_some_inputs_witness:
  "JSON_parse demo_parser_env ''null'' = Some JNull
   \<and> windows_parse demo_builtins demo_parser_env (JStr ''null'') JUndefined = Inl TypeError
   \<and> syslog_parse demo_parser_env (JStr ''abc 1 00:00:00 h p: m'') JUndefined = Inl RangeError"
proof -
  have j: "JSON_parse demo_parser_env ''null'' = Some JNull"
    by (simp add: demo_parser_env_def)
  from parsers_throw_on_some_inputs [of demo_parser_env JUndefined demo_builtins] j
  show ?thesis by blast
qed

subsection \<open>Windows event parser\<close>

lemma js_get_assoc_set_same: "js_get (JObj (assoc_set kvs k v)) k = v"
  by (induction kvs) auto

lemma js_get_assoc_set_other:
  "k' \<noteq> k \<Longrightarrow> js_get (JObj (assoc_set kvs k v)) k' = js_get (JObj kvs) k'"
  by (induction kvs) auto

lemma js_get_obj_cons:
  "js_get (JObj ((k', v) # kvs)) k = (if k' = k then v else js_get (JObj kvs) k)"
  "js_get (JObj []) k = JUndefined"
  by simp_all

lemma set_parsed_data_obj:
  "set_parsed_data (JObj pk) k v
     = JObj (assoc_set pk ''parsed_data'' (js_set (js_get (JObj pk) ''parsed_data'') k v))"
  by (simp add: set_parsed_data_def)

lemma parseProcessEvent_suspicious:
  assumes props: "event_props event = JArr ps" "10 \<le> length ps"
    and path: "prop_at (JArr ps) 5 = JStr path"
    and temp: "str_includes (toLowerCase path) ([BSL] @ ''temp'' @ [BSL])
             \<or> str_includes (toLowerCase path) ([BSL] @ ''tmp'' @ [BSL])
             \<or> str_includes (toLowerCase path)
                  ([BSL] @ ''appdata'' @ [BSL] @ ''local'' @ [BSL] @ ''temp'')"
  shows "\<exists>ev. parseProcessEvent B (JObj pk) event = Inr ev"
    and "event_field (parseProcessEvent B (JObj pk) event) ''severity'' = JStr ''warning''"
    and "event_field (parseProcessEvent B (JObj pk) event) ''description''
         = JStr (''Suspicious: Process from temp directory: ''
            @ (if last (split_on BSL path) = [] then ''Unknown'' else last (split_on BSL path)))"
proof -
  have len: "props_at_least B (js_or (event_props event) (JArr [])) 10"
    "printable (js_get (JArr ps) ''length'')"
    using props by (simp_all add: props_at_least_def js_or_def num_ge_def)
  have p: "js_or (event_props event) (JArr []) = JArr ps"
    using props by (simp add: js_or_def)
  have lower: "toLowerCase (js_to_string (js_or (JStr path) (JStr []))) = toLowerCase path"
    by (cases path) (simp_all add: js_or_def)
  note unf = parseProcessEvent_def p path lower Let_def nullish_def set_parsed_data_obj
    js_get_assoc_set_same js_get_assoc_set_other event_field_def
  show "\<exists>ev. parseProcessEvent B (JObj pk) event = Inr ev"
    using len temp by (simp add: unf del: js_get.simps assoc_set.simps)
  show "event_field (parseProcessEvent B (JObj pk) event) ''severity'' = JStr ''warning''"
    using len temp by (simp add: unf del: js_get.simps assoc_set.simps)
  show "event_field (parseProcessEvent B (JObj pk) event) ''description''
         = JStr (''Suspicious: Process from temp directory: ''
            @ (if last (split_on BSL path) = [] then ''Unknown'' else last (split_on BSL path)))"
    using len temp by (simp add: unf del: js_get.simps assoc_set.simps)
qed

lemma lookup_4688:
  "table_lookup B EVENT_MAPPINGS (JNum 4688)
     = Inr (mapping_entry ''process'' ''info'' ''New process created'')"
  by (simp add: table_lookup_def js_lookup_def EVENT_MAPPINGS_def show_int_def show_nat.simps
      digit_char_def)

lemma mapping_entry_fields:
  "js_lookup B (js_or (mapping_entry t s d) dflt) ''type'' = Inr (JStr t)"
  "js_lookup B (js_or (mapping_entry t s d) dflt) ''severity'' = Inr (JStr s)"
  "js_lookup B (js_or (mapping_entry t s d) dflt) ''desc'' = Inr (JStr d)"
  by (simp_all add: mapping_entry_def js_or_def js_lookup_def)

lemma windows_parse_process_event:
  assumes id: "js_or (js_or (js_get (JObj kvs) ''Id'') (js_get (JObj kvs) ''EventId''))
                 (js_get (JObj kvs) ''event_id'') = JNum 4688"
  shows "\<exists>pk. windows_parse B E (JObj kvs) metadata = parseProcessEvent B (JObj pk) (JObj kvs)"
proof (cases "truthy (event_props (JObj kvs))")
  case True
  then show ?thesis
    by (simp add: windows_parse_def parseWindowsEvent_def id nullish_def Let_def
        lookup_4688 mapping_entry_fields set_parsed_data_obj
        del: js_get.simps assoc_set.simps)
       (rule exI, rule refl)
next
  case False
  then show ?thesis
    by (simp add: windows_parse_def parseWindowsEvent_def id nullish_def Let_def
        lookup_4688 mapping_entry_fields
        del: js_get.simps assoc_set.simps)
       (rule exI, rule refl)
qed

text \<open>
  C8, amended: for a Windows record with event ID 4688 whose \<open>Properties\<close> is an
  array of at least ten entries, with the string \<open>path\<close> at position 5 (directly or
  as its \<open>Value\<close>): if \<open>path\<close> in lower case contains \<open>\temp\\<close>, \<open>\tmp\\<close> or
  \<open>\appdata\local\temp\<close>, the parser returns an event of severity \<open>warning\<close> whose
  description is "Suspicious: Process from temp directory: " followed by the last
  path segment (or \<open>Unknown\<close> when that is empty).
\<close>

theorem windows_temp_process_escalated:
  assumes id: "js_or (js_or (js_get (JObj kvs) ''Id'') (js_get (JObj kvs) ''EventId''))
                 (js_get (JObj kvs) ''event_id'') = JNum 4688"
    and props: "event_props (JObj kvs) = JArr ps" "10 \<le> length ps"
    and path: "prop_at (JArr ps) 5 = JStr path"
    and temp: "str_includes (toLowerCase path) ([BSL] @ ''temp'' @ [BSL])
             \<or> str_includes (toLowerCase path) ([BSL] @ ''tmp'' @ [BSL])
             \<or> str_includes (toLowerCase path)
                  ([BSL] @ ''appdata'' @ [BSL] @ ''local'' @ [BSL] @ ''temp'')"
  shows "(\<exists>ev. windows_parse B E (JObj kvs) metadata = Inr ev)
       \<and> event_field (windows_parse B E (JObj kvs) metadata) ''severity'' = JStr ''warning''
       \<and> event_field (windows_parse B E (JObj kvs) metadata) ''description''
           = JStr (''Suspicious: Process from temp directory: ''
              @ (if last (split_on BSL path) = [] then ''Unknown''
                 else last (split_on BSL path)))"
proof -
  from windows_parse_process_event [OF id] obtain pk where
    "windows_parse B E (JObj kvs) metadata = parseProcessEvent B (JObj pk) (JObj kvs)"
    by blast
  then show ?thesis
    using parseProcessEvent_suspicious [OF props path temp, of B pk] by simp
qed


lemma demo_process_event_facts:
  "js_or (js_or (js_get (demo_process_event path) ''Id'') (js_get (demo_process_event path) ''EventId''))
     (js_get (demo_process_event path) ''event_id'') = JNum 4688"
  "event_props (demo_process_event path) =
     JArr [JStr ''S-1-5-18'', JStr ''alice'', JStr ''CORP'', JStr ''0x3e7'', JStr ''0x1a2c'',
           JStr path, JStr ''%%1936'', JStr ''0x4d8'', JStr ''cmd /c run'', JStr ''S-1-0-0'']"
  by (simp_all add: demo_process_event_def js_or_def event_props_def)

lemma prop_at_5:
  "prop_at (JArr [a0, a1, a2, a3, a4, JStr path, a6, a7, a8, a9]) 5 = JStr path"
  by (simp add: prop_at_def show_nat.simps digit_char_def array_index_def is_digit_def
      digit_val_def js_get_opt_def js_or_def)

text \<open>
  C8, as stated, fails: the parser tests three substrings, all with backslashes, and
  \<open>/tmp/\<close> is not one of them. A 4688 record with ten properties and the path
  \<open>/tmp/dropper\<close> keeps severity \<open>info\<close> and the plain description.
\<close>

theorem windows_tmp_path_not_escalated_counterexample:
  "event_field (windows_parse demo_builtins demo_parser_env
       (demo_process_event ''/tmp/dropper'') JUndefined) ''severity'' = JStr ''info''
   \<and> event_field (windows_parse demo_builtins demo_parser_env
       (demo_process_event ''/tmp/dropper'') JUndefined) ''description''
       = JStr ''Process created: /tmp/dropper''
   \<and> str_includes (toLowerCase ''/tmp/dropper'') ''/tmp/''"
proof -
  let ?ev = "demo_process_event ''/tmp/dropper''"
  let ?ps = "JArr [JStr ''S-1-5-18'', JStr ''alice'', JStr ''CORP'', JStr ''0x3e7'',
           JStr ''0x1a2c'', JStr ''/tmp/dropper'', JStr ''%%1936'', JStr ''0x4d8'',
           JStr ''cmd /c run'', JStr ''S-1-0-0'']"
  have len: "props_at_least demo_builtins (js_or ?ps (JArr [])) 10"
    "printable (js_get ?ps ''length'')"
    by (simp_all add: props_at_least_def js_or_def num_ge_def)
  have lower: "toLowerCase ''/tmp/dropper'' = ''/tmp/dropper''"
    by (simp add: toLowerCase_def lower_char_def)
  have inc: "str_includes ''/tmp/dropper'' ''/tmp/''" by simp
  have noinc: "\<not> str_includes ''/tmp/dropper'' ([BSL] @ ''temp'' @ [BSL])"
    "\<not> str_includes ''/tmp/dropper'' ([BSL] @ ''tmp'' @ [BSL])"
    "\<not> str_includes ''/tmp/dropper'' ([BSL] @ ''appdata'' @ [BSL] @ ''local'' @ [BSL] @ ''temp'')"
    by simp_all
  have lastseg: "last (split_on BSL ''/tmp/dropper'') = ''/tmp/dropper''" by simp
  have proc: "\<And>pk. parseProcessEvent demo_builtins (JObj pk) ?ev
      = Inr (js_set (set_parsed_data (set_parsed_data (set_parsed_data (set_parsed_data (JObj pk)
            ''new_process_name'' (JStr ''/tmp/dropper''))
            ''command_line'' (prop_at ?ps 8))
            ''creator_process'' (prop_at ?ps 13))
            ''token_elevation'' (prop_at ?ps 6))
          ''description'' (JStr ''Process created: /tmp/dropper''))"
    using len noinc
    by (simp add: parseProcessEvent_def demo_process_event_facts prop_at_5 Let_def nullish_def
        js_or_def lower lastseg del: js_get.simps js_set.simps str_includes.simps split_on.simps)
  have wp: "windows_parse demo_builtins demo_parser_env ?ev JUndefined
      = parseWindowsEvent demo_builtins demo_parser_env ?ev"
    by (simp add: windows_parse_def demo_process_event_def)
  have nn: "\<not> nullish ?ev"
    by (simp add: nullish_def demo_process_event_def)
  show ?thesis
    using inc nn
    by (simp add: wp parseWindowsEvent_def demo_process_event_facts
        Let_def lookup_4688 mapping_entry_fields proc event_field_def set_parsed_data_obj lower
        js_get_assoc_set_same js_get_assoc_set_other js_get_obj_cons
        del: js_get.simps assoc_set.simps str_includes.simps to_number.simps js_to_string.simps)
qed

theorem windows_temp_process_escalated_witness:
  "event_field (windows_parse demo_builtins demo_parser_env
       (demo_process_event demo_temp_path) JUndefined) ''severity'' = JStr ''warning''
   \<and> event_field (windows_parse demo_builtins demo_parser_env
       (demo_process_event demo_temp_path) JUndefined) ''description''
       = JStr ''Suspicious: Process from temp directory: evil.EXE''"
proof -
  have temp: "str_includes (toLowerCase demo_temp_path) ([BSL] @ ''temp'' @ [BSL])
             \<or> str_includes (toLowerCase demo_temp_path) ([BSL] @ ''tmp'' @ [BSL])
             \<or> str_includes (toLowerCase demo_temp_path)
                  ([BSL] @ ''appdata'' @ [BSL] @ ''local'' @ [BSL] @ ''temp'')"
    by (simp add: demo_temp_path_def toLowerCase_def lower_char_def)
  have lastseg: "last (split_on BSL demo_temp_path) = ''evil.EXE''"
    by (simp add: demo_temp_path_def)
  have ten: "10 \<le> length [JStr ''S-1-5-18'', JStr ''alice'', JStr ''CORP'', JStr ''0x3e7'',
      JStr ''0x1a2c'', JStr demo_temp_path, JStr ''%%1936'', JStr ''0x4d8'', JStr ''cmd /c run'',
      JStr ''S-1-0-0'']"
    by simp
  have obj: "demo_process_event demo_temp_path =
     JObj [(''Id'', JNum 4688),
           (''MachineName'', JStr ''WS-01''),
           (''Properties'', JArr
              [JStr ''S-1-5-18'', JStr ''alice'', JStr ''CORP'', JStr ''0x3e7'', JStr ''0x1a2c'',
               JStr demo_temp_path, JStr ''%%1936'', JStr ''0x4d8'', JStr ''cmd /c run'',
               JStr ''S-1-0-0''])]"
    by (simp add: demo_process_event_def)
  from windows_temp_process_escalated [OF
         demo_process_event_facts(1) [of demo_temp_path, unfolded obj]
         demo_process_event_facts(2) [of demo_temp_path, unfolded obj]
         ten prop_at_5 temp, of demo_builtins demo_parser_env JUndefined]
  show ?thesis
    unfolding obj by (simp add: lastseg del: split_on.simps)
qed

end
